theory Spec2Isabelle
  imports Complex_Main "HOL-Library.Char_ord" "HOL-Library.List_Lexorder"
begin

section \<open>Python values handled by the Lacework connector\<close>

text \<open>
  The connector of \<^verbatim>\<open>lacework_connector.py\<close> works on the values that
  \<^verbatim>\<open>response.json()\<close> returns and on the content of its cache file: \<^verbatim>\<open>None\<close>,
  booleans, numbers, strings, lists and dictionaries with string keys. A dictionary is an
  association list in insertion order (its keys are distinct, as in a parsed document).
  Numbers are the rationals they denote.
\<close>

datatype json =
    JNull
  | JBool bool
  | JNumber rat
  | JString string
  | JArray "json list"
  | JObject "(string \<times> json) list"

text \<open>
  The exception classes that matter to the connector. \<open>HTTPError\<close> is
  \<^verbatim>\<open>requests.exceptions.HTTPError\<close> and \<open>BaseHTTPError\<close> is
  \<^verbatim>\<open>urllib3.exceptions.HTTPError\<close> (each with its subclasses); \<open>OtherException\<close> is
  any other subclass of \<^verbatim>\<open>Exception\<close>, by name.
\<close>

datatype exn =
    HTTPError
  | BaseHTTPError
  | AttributeError
  | TypeError
  | KeyError
  | ValueError
  | OtherException string

definition exn_bind :: "exn + 'a \<Rightarrow> ('a \<Rightarrow> exn + 'b) \<Rightarrow> exn + 'b" where
  "exn_bind r f = (case r of Inl e \<Rightarrow> Inl e | Inr x \<Rightarrow> f x)"

text \<open>Truth value of a Python object, as tested by \<^verbatim>\<open>if cursor:\<close>.\<close>

fun truthy :: "json \<Rightarrow> bool" where
  "truthy JNull = False"
| "truthy (JBool b) = b"
| "truthy (JNumber r) = (r \<noteq> 0)"
| "truthy (JString s) = (s \<noteq> [])"
| "truthy (JArray xs) = (xs \<noteq> [])"
| "truthy (JObject kvs) = (kvs \<noteq> [])"

text \<open>\<^verbatim>\<open>x.get(key, default)\<close>: only a dictionary has the method.\<close>

fun dict_get :: "json \<Rightarrow> string \<Rightarrow> json \<Rightarrow> exn + json" where
  "dict_get (JObject kvs) k d = Inr (case map_of kvs k of None \<Rightarrow> d | Some v \<Rightarrow> v)"
| "dict_get _ k d = Inl AttributeError"

text \<open>\<^verbatim>\<open>x[key]\<close> with a string key.\<close>

fun subscript :: "json \<Rightarrow> string \<Rightarrow> exn + json" where
  "subscript (JObject kvs) k = (case map_of kvs k of None \<Rightarrow> Inl KeyError | Some v \<Rightarrow> Inr v)"
| "subscript _ k = Inl TypeError"

text \<open>
  \<^verbatim>\<open>x.data\<close>: none of the classes \<^verbatim>\<open>NoneType\<close>, \<^verbatim>\<open>bool\<close>, \<^verbatim>\<open>int\<close>, \<^verbatim>\<open>float\<close>,
  \<^verbatim>\<open>str\<close>, \<^verbatim>\<open>list\<close>, \<^verbatim>\<open>dict\<close> has an attribute of that name.
\<close>

fun getattr_data :: "json \<Rightarrow> exn + json" where
  "getattr_data JNull = Inl AttributeError"
| "getattr_data (JBool b) = Inl AttributeError"
| "getattr_data (JNumber r) = Inl AttributeError"
| "getattr_data (JString s) = Inl AttributeError"
| "getattr_data (JArray xs) = Inl AttributeError"
| "getattr_data (JObject kvs) = Inl AttributeError"

text \<open>\<^verbatim>\<open>len(x)\<close> and the iteration \<^verbatim>\<open>for item in x\<close>.\<close>

fun py_len :: "json \<Rightarrow> exn + nat" where
  "py_len (JString s) = Inr (length s)"
| "py_len (JArray xs) = Inr (length xs)"
| "py_len (JObject kvs) = Inr (length kvs)"
| "py_len _ = Inl TypeError"

fun py_iter :: "json \<Rightarrow> exn + json list" where
  "py_iter (JString s) = Inr (map (\<lambda>c. JString [c]) s)"
| "py_iter (JArray xs) = Inr xs"
| "py_iter (JObject kvs) = Inr (map (\<lambda>kv. JString (fst kv)) kvs)"
| "py_iter _ = Inl TypeError"

text \<open>\<^verbatim>\<open>int(x)\<close> on a float: truncation towards zero.\<close>

definition py_int :: "rat \<Rightarrow> int" where
  "py_int x = (if 0 \<le> x then \<lfloor>x\<rfloor> else \<lceil>x\<rceil>)"

subsection \<open>Equality and ordering\<close>

fun num_of :: "json \<Rightarrow> rat option" where
  "num_of (JBool b) = Some (if b then 1 else 0)"
| "num_of (JNumber r) = Some r"
| "num_of _ = None"

text \<open>
  \<^verbatim>\<open>a == b\<close>: numbers and booleans compare by value, lists element by element,
  dictionaries as mappings (same number of keys, and every key of the first bound to an equal
  value in the second).
\<close>

fun py_eq :: "json \<Rightarrow> json \<Rightarrow> bool"
  and py_eq_list :: "json list \<Rightarrow> json list \<Rightarrow> bool"
  and py_eq_dict :: "(string \<times> json) list \<Rightarrow> (string \<times> json) list \<Rightarrow> bool"
  and py_eq_entry :: "string \<Rightarrow> json \<Rightarrow> (string \<times> json) list \<Rightarrow> bool"
where
  "py_eq JNull b = (b = JNull)"
| "py_eq (JBool x) b = (num_of b = Some (if x then 1 else 0))"
| "py_eq (JNumber r) b = (num_of b = Some r)"
| "py_eq (JString s) b = (b = JString s)"
| "py_eq (JArray xs) (JArray ys) = py_eq_list xs ys"
| "py_eq (JArray xs) _ = False"
| "py_eq (JObject kvs) (JObject kvs') = (length kvs = length kvs' \<and> py_eq_dict kvs kvs')"
| "py_eq (JObject kvs) _ = False"
| "py_eq_list [] ys = (ys = [])"
| "py_eq_list (x # xs) [] = False"
| "py_eq_list (x # xs) (y # ys) = (py_eq x y \<and> py_eq_list xs ys)"
| "py_eq_dict [] kvs' = True"
| "py_eq_dict ((k, v) # kvs) kvs' = (py_eq_entry k v kvs' \<and> py_eq_dict kvs kvs')"
| "py_eq_entry k v [] = False"
| "py_eq_entry k v ((k', v') # kvs') = (if k = k' then py_eq v v' else py_eq_entry k v kvs')"

text \<open>
  \<^verbatim>\<open>a > b\<close>: defined between two strings (lexicographic), between numbers and booleans,
  and between two lists (the first pair of unequal elements decides, else the lengths);
  every other pair raises \<^verbatim>\<open>TypeError\<close>.
\<close>

fun py_gt :: "json \<Rightarrow> json \<Rightarrow> exn + bool"
  and py_gt_list :: "json list \<Rightarrow> json list \<Rightarrow> exn + bool"
where
  "py_gt (JString s) (JString t) = Inr (t < s)"
| "py_gt (JArray xs) (JArray ys) = py_gt_list xs ys"
| "py_gt a b =
     (case (num_of a, num_of b) of
        (Some x, Some y) \<Rightarrow> Inr (y < x)
      | _ \<Rightarrow> Inl TypeError)"
| "py_gt_list [] ys = Inr False"
| "py_gt_list (x # xs) [] = Inr True"
| "py_gt_list (x # xs) (y # ys) = (if py_eq x y then py_gt_list xs ys else py_gt x y)"

text \<open>
  The builtin \<^verbatim>\<open>max(iterable, key=f)\<close>: the key of each element is computed when the
  element is reached and compared with the key of the best element so far; a later element
  replaces it only when its key is strictly greater. The result is the best element with
  its key. An empty iterable raises \<^verbatim>\<open>ValueError\<close>.
\<close>

fun max_scan :: "(json \<Rightarrow> exn + json) \<Rightarrow> json \<times> json \<Rightarrow> json list \<Rightarrow> exn + json \<times> json" where
  "max_scan f best [] = Inr best"
| "max_scan f best (x # xs) =
     exn_bind (f x) (\<lambda>k.
     exn_bind (py_gt k (snd best)) (\<lambda>g.
       max_scan f (if g then (x, k) else best) xs))"

definition py_max_key :: "(json \<Rightarrow> exn + json) \<Rightarrow> json list \<Rightarrow> exn + json \<times> json" where
  "py_max_key f xs =
     (case xs of
        [] \<Rightarrow> Inl ValueError
      | x # rest \<Rightarrow> exn_bind (f x) (\<lambda>k. max_scan f (x, k) rest))"

section \<open>The connector's surroundings\<close>

record configuration =
  frequency :: int
  chunk_size :: int
  intake_key :: string

text \<open>The parameters of one \<^verbatim>\<open>list_alerts\<close> request, and the response it gets.\<close>

record parameters =
  limit_param :: int
  cursor_param :: "json option"
  startTime_param :: "int option"

record response =
  ok :: bool
  status_code :: int
  reason :: string
  json_result :: "exn + json"

datatype api_result = Raises exn | Returns response

text \<open>
  The log lines of the connector: \<^verbatim>\<open>Lacework Events Trigger has started\<close> and
  \<^verbatim>\<open>... has stopped\<close>, the failed request with its status code and reason,
  \<^verbatim>\<open>Sending a batch of n messages\<close> and \<^verbatim>\<open>No messages to forward\<close>.
\<close>

datatype log_level = Info | Error

datatype log_message =
    TriggerStarted
  | TriggerStopped
  | RequestFailed int string
  | SendingBatch nat
  | NoMessages

text \<open>What the connector does to the outside, in the order in which it does it.\<close>

datatype effect =
    Log log_message log_level
  | LogException exn string
  | ListAlerts parameters
  | PushEvents "string list"
  | CursorWritten json
  | Sleep int
  | ForwardEventsDuration string int
  | EventsLag string int
  | IncomingEvents string nat
  | OutcomingEvents string nat

text \<open>
  The world the connector runs in. \<open>cache\<close> is the content of \<^verbatim>\<open>context.json\<close>.
  \<open>clock\<close> gives the value of the \<open>n\<close>-th call of \<^verbatim>\<open>time.time()\<close> and
  \<open>api\<close> the outcome of the \<open>n\<close>-th call of \<^verbatim>\<open>client.list_alerts\<close> for its parameters.
  \<open>strptime_timestamp s\<close> is
  \<^verbatim>\<open>datetime.strptime(s, "%Y-%m-%dT%H:%M:%S.%fZ").timestamp()\<close>, \<open>None\<close> when the string does
  not match the format, and \<open>orjson_dumps\<close> is \<^verbatim>\<open>orjson.dumps(m).decode("utf-8")\<close>.
  \<open>trace\<close> records the effects so far, oldest first. Times are rational numbers of
  seconds; the rounding of floating point numbers is left out.
\<close>

record world =
  cache :: "string \<rightharpoonup> json"
  clock :: "nat \<Rightarrow> rat"
  clock_reads :: nat
  api :: "nat \<Rightarrow> parameters \<Rightarrow> api_result"
  api_calls :: nat
  strptime_timestamp :: "string \<Rightarrow> rat option"
  orjson_dumps :: "json \<Rightarrow> string"
  trace :: "effect list"

text \<open>A computation changes the world and returns a value or raises an exception.\<close>

type_synonym 'a io = "world \<Rightarrow> (exn + 'a) \<times> world"

definition io_return :: "'a \<Rightarrow> 'a io" where
  "io_return x w = (Inr x, w)"

definition io_raise :: "exn \<Rightarrow> 'a io" where
  "io_raise e w = (Inl e, w)"

definition io_lift :: "exn + 'a \<Rightarrow> 'a io" where
  "io_lift r w = (r, w)"

definition io_bind :: "'a io \<Rightarrow> ('a \<Rightarrow> 'b io) \<Rightarrow> 'b io" where
  "io_bind m f w = (case m w of (Inl e, w') \<Rightarrow> (Inl e, w') | (Inr x, w') \<Rightarrow> f x w')"

definition io_get :: "(world \<Rightarrow> 'a) \<Rightarrow> 'a io" where
  "io_get f w = (Inr (f w), w)"

definition emit :: "effect \<Rightarrow> unit io" where
  "emit e w = (Inr (), w\<lparr>trace := trace w @ [e]\<rparr>)"

definition time_time :: "rat io" where
  "time_time w = (Inr (clock w (clock_reads w)), w\<lparr>clock_reads := Suc (clock_reads w)\<rparr>)"

text \<open>
  The stop signal is the list of the values that the successive reads of
  \<^verbatim>\<open>self.running\<close> will give; once they are used up the connector has been stopped and
  the flag reads \<^verbatim>\<open>False\<close>.
\<close>

fun self_running :: "bool list \<Rightarrow> bool \<times> bool list" where
  "self_running [] = (False, [])"
| "self_running (r # rest) = (r, rest)"

definition client_list_alerts :: "parameters \<Rightarrow> response io" where
  "client_list_alerts ps w =
     (let w' = w\<lparr>api_calls := Suc (api_calls w), trace := trace w @ [ListAlerts ps]\<rparr>
      in case api w (api_calls w) ps of
           Raises e \<Rightarrow> (Inl e, w')
         | Returns r \<Rightarrow> (Inr r, w'))"

text \<open>
  The sink call. The sink is taken to be reliable: the call returns. Likewise the log
  calls, the metrics, the accesses to the cache file and \<^verbatim>\<open>time.sleep\<close> return; they only
  leave their effect in the trace.
\<close>

definition push_events_to_intakes :: "string list \<Rightarrow> unit io" where
  "push_events_to_intakes events = emit (PushEvents events)"

section \<open>The connector\<close>

text \<open>The property \<^verbatim>\<open>cursor\<close> and its setter, on the cache.\<close>

definition cursor :: "world \<Rightarrow> json" where
  "cursor w = (case cache w ''cursor'' of None \<Rightarrow> JNull | Some c \<Rightarrow> c)"

definition set_cursor :: "json \<Rightarrow> unit io" where
  "set_cursor c w =
     (Inr (), w\<lparr>cache := (cache w)(''cursor'' \<mapsto> c), trace := trace w @ [CursorWritten c]\<rparr>)"

definition pagination_limit :: "configuration \<Rightarrow> int" where
  "pagination_limit cf = max (chunk_size cf) 1000"

text \<open>Lines 91 to 100: the parameters of the request.\<close>

definition request_parameters :: "configuration \<Rightarrow> json \<Rightarrow> parameters io" where
  "request_parameters cf c =
     (if truthy c
      then io_return \<lparr>limit_param = pagination_limit cf, cursor_param = Some c,
                      startTime_param = None\<rparr>
      else io_bind time_time (\<lambda>now.
           io_return \<lparr>limit_param = pagination_limit cf, cursor_param = None,
                      startTime_param = Some (py_int now - 300)\<rparr>))"

definition get_next_events :: "configuration \<Rightarrow> json \<Rightarrow> json io" where
  "get_next_events cf c =
     io_bind (request_parameters cf c) (\<lambda>ps.
     io_bind (client_list_alerts ps) (\<lambda>resp.
       if \<not> ok resp
       then io_bind (emit (Log (RequestFailed (status_code resp) (reason resp)) Error)) (\<lambda>_.
            io_return JNull)
       else io_lift (json_result resp)))"

definition extract_timestamp :: "(string \<Rightarrow> rat option) \<Rightarrow> json \<Rightarrow> exn + rat" where
  "extract_timestamp strp item =
     exn_bind (subscript item ''startTime'') (\<lambda>v.
       case v of
         JString s \<Rightarrow> (case strp s of None \<Rightarrow> Inl ValueError | Some t \<Rightarrow> Inr t)
       | _ \<Rightarrow> Inl TypeError)"

definition get_most_recent_timestamp_from_items ::
    "(string \<Rightarrow> rat option) \<Rightarrow> json \<Rightarrow> exn + rat" where
  "get_most_recent_timestamp_from_items strp items =
     exn_bind (py_iter items) (\<lambda>its.
     exn_bind (py_max_key (\<lambda>item. subscript item ''startTime'') its) (\<lambda>latest.
       extract_timestamp strp (fst latest)))"

text \<open>
  Line 144: the next-page marker of a page,
  \<^verbatim>\<open>batch.get("content", {}).get("paging", {}).get("urls", {}).get("nextPage")\<close>.
\<close>

definition next_page :: "json \<Rightarrow> exn + json" where
  "next_page batch =
     exn_bind (dict_get batch ''content'' (JObject [])) (\<lambda>c.
     exn_bind (dict_get c ''paging'' (JObject [])) (\<lambda>p.
     exn_bind (dict_get p ''urls'' (JObject [])) (\<lambda>u.
       dict_get u ''nextPage'' JNull)))"

text \<open>
  Line 146: \<^verbatim>\<open>max(item.get("startTime") for item in d)\<close>, for the value \<open>d\<close> of the
  attribute \<^verbatim>\<open>data\<close>.
\<close>

definition max_startTime :: "json \<Rightarrow> exn + json" where
  "max_startTime d =
     exn_bind (py_iter d) (\<lambda>its.
     exn_bind (py_max_key (\<lambda>item. dict_get item ''startTime'' JNull) its) (\<lambda>best.
       Inr (snd best)))"

text \<open>The local variables of \<^verbatim>\<open>forward_next_batches\<close>.\<close>

record locals =
  has_more_messages :: bool
  cursor_var :: json
  messages :: "string list"

text \<open>
  One pass through the body of the \<^verbatim>\<open>while\<close> loop (lines 138 to 162). The result says
  whether the body left the loop by \<^verbatim>\<open>break\<close>. The one-element tuple \<^verbatim>\<open>(True,)\<close>
  assigned at line 145 is a true value.
\<close>

definition loop_body :: "configuration \<Rightarrow> locals \<Rightarrow> (bool \<times> locals) io" where
  "loop_body cf l0 =
     (let l = l0\<lparr>has_more_messages := False\<rparr> in
      io_bind (get_next_events cf (cursor_var l)) (\<lambda>batch.
      if batch = JNull then io_return (True, l)
      else
      io_bind (io_lift (next_page batch)) (\<lambda>np.
      io_bind
        (if np \<noteq> JNull
         then io_bind (get_next_events cf (cursor_var l)) (\<lambda>again.
              io_bind (io_lift (getattr_data again)) (\<lambda>d.
              io_bind (io_lift (max_startTime d)) (\<lambda>c.
                io_return (l\<lparr>has_more_messages := True, cursor_var := c\<rparr>))))
         else io_return l)
        (\<lambda>l.
      io_bind (io_lift (dict_get batch ''data'' (JArray []))) (\<lambda>items.
      io_bind (io_lift (py_len items)) (\<lambda>n.
      io_bind
        (if 0 < n
         then io_bind (io_get strptime_timestamp) (\<lambda>strp.
              io_bind (io_lift (get_most_recent_timestamp_from_items strp items)) (\<lambda>seen.
              io_bind time_time (\<lambda>now.
              io_bind (emit (EventsLag (intake_key cf) (py_int (now - seen)))) (\<lambda>_.
                emit (IncomingEvents (intake_key cf) n)))))
         else io_return ())
        (\<lambda>_.
      io_bind (io_lift (py_iter items)) (\<lambda>its.
      io_bind (io_get orjson_dumps) (\<lambda>dumps.
      let msgs = messages l @ map dumps its in
      if pagination_limit cf < int (length msgs)
      then io_bind (emit (Log (SendingBatch (length msgs)) Info)) (\<lambda>_.
           io_bind (emit (OutcomingEvents (intake_key cf) (length msgs))) (\<lambda>_.
           io_bind (push_events_to_intakes msgs) (\<lambda>_.
             io_return (False, l\<lparr>messages := []\<rparr>))))
      else io_return (False, l\<lparr>messages := msgs\<rparr>))))))))))"

text \<open>
  The \<^verbatim>\<open>while has_more_messages and self.running\<close> loop: the flag is read only when
  \<^verbatim>\<open>has_more_messages\<close> is true. The result carries what is left of the stop signal.
\<close>

fun while_loop ::
    "configuration \<Rightarrow> bool list \<Rightarrow> locals \<Rightarrow> world \<Rightarrow> (exn + locals) \<times> bool list \<times> world" where
  "while_loop cf [] l w = (Inr l, [], w)"
| "while_loop cf (r # rest) l w =
     (if \<not> has_more_messages l then (Inr l, r # rest, w)
      else if \<not> r then (Inr l, rest, w)
      else (case loop_body cf l w of
              (Inl e, w') \<Rightarrow> (Inl e, rest, w')
            | (Inr (True, l'), w') \<Rightarrow> (Inr l', rest, w')
            | (Inr (False, l'), w') \<Rightarrow> while_loop cf rest l' w'))"

text \<open>Lines 164 to 171: the cursor is written, then what is left is sent.\<close>

definition after_loop :: "configuration \<Rightarrow> locals \<Rightarrow> unit io" where
  "after_loop cf l =
     io_bind (set_cursor (cursor_var l)) (\<lambda>_.
     if messages l \<noteq> []
     then io_bind (emit (Log (SendingBatch (length (messages l))) Info)) (\<lambda>_.
          io_bind (emit (OutcomingEvents (intake_key cf) (length (messages l)))) (\<lambda>_.
            push_events_to_intakes (messages l)))
     else emit (Log NoMessages Info))"

text \<open>The function from a given state of its local variables, at the loop's test.\<close>

definition drain_from ::
    "configuration \<Rightarrow> bool list \<Rightarrow> locals \<Rightarrow> world \<Rightarrow> (exn + unit) \<times> bool list \<times> world" where
  "drain_from cf flags l w =
     (case while_loop cf flags l w of
        (Inl e, flags', w') \<Rightarrow> (Inl e, flags', w')
      | (Inr l', flags', w') \<Rightarrow> (case after_loop cf l' w' of (r, w'') \<Rightarrow> (r, flags', w'')))"

definition forward_next_batches ::
    "configuration \<Rightarrow> bool list \<Rightarrow> world \<Rightarrow> (exn + unit) \<times> bool list \<times> world" where
  "forward_next_batches cf flags w =
     drain_from cf flags \<lparr>has_more_messages = True, cursor_var = cursor w, messages = []\<rparr> w"

text \<open>The two \<^verbatim>\<open>except\<close> clauses of \<^verbatim>\<open>run\<close>.\<close>

definition is_http_error :: "exn \<Rightarrow> bool" where
  "is_http_error e = (e = HTTPError \<or> e = BaseHTTPError)"

definition handle_exception :: "exn \<Rightarrow> unit io" where
  "handle_exception e =
     (if is_http_error e
      then emit (LogException e ''Failed to get next batch of events'')
      else io_bind (emit (LogException e ''An unknown exception occurred'')) (\<lambda>_. io_raise e))"

text \<open>Lines 77 to 85, from the time at which the cycle started.\<close>

definition sleep_step :: "configuration \<Rightarrow> rat \<Rightarrow> unit io" where
  "sleep_step cf start =
     io_bind time_time (\<lambda>finish.
     let duration = py_int (finish - start) in
     io_bind (emit (ForwardEventsDuration (intake_key cf) duration)) (\<lambda>_.
     let delta_sleep = frequency cf - duration in
     if 0 < delta_sleep then emit (Sleep delta_sleep) else io_return ()))"

text \<open>One pass through the body of the loop of \<^verbatim>\<open>run\<close>.\<close>

definition cycle ::
    "configuration \<Rightarrow> bool list \<Rightarrow> world \<Rightarrow> (exn + unit) \<times> bool list \<times> world" where
  "cycle cf flags w =
     (case time_time w of
        (Inl e, w1) \<Rightarrow> (Inl e, flags, w1)
      | (Inr start, w1) \<Rightarrow>
          (case forward_next_batches cf flags w1 of (r, flags', w2) \<Rightarrow>
             (case (case r of Inl e \<Rightarrow> handle_exception e w2 | Inr u \<Rightarrow> (Inr u, w2)) of
                (Inl e, w3) \<Rightarrow> (Inl e, flags', w3)
              | (Inr u, w3) \<Rightarrow> (case sleep_step cf start w3 of (r', w4) \<Rightarrow> (r', flags', w4)))))"

function run_loop ::
    "configuration \<Rightarrow> bool list \<Rightarrow> world \<Rightarrow> (exn + unit) \<times> bool list \<times> world" where
  "run_loop cf flags w =
     (case self_running flags of
        (False, flags1) \<Rightarrow> (Inr (), flags1, w)
      | (True, flags1) \<Rightarrow>
          (case cycle cf flags1 w of
             (Inl e, flags2, w') \<Rightarrow> (Inl e, flags2, w')
           | (Inr u, flags2, w') \<Rightarrow> run_loop cf flags2 w'))"
  by pat_completeness auto
termination
proof (relation "measure (\<lambda>(cf, flags, w). length flags)")
  show "wf (measure (\<lambda>(cf, flags, w). length flags))"
    by simp
next
  fix cf :: configuration and flags flags1 :: "bool list" and w :: world
    and x :: bool and xa ya u xb yb
  assume sr: "(x, flags1) = self_running flags" and x: "x = True"
    and cy: "(xa, ya) = cycle cf flags1 w" "xa = Inr u" "(xb, yb) = ya"
  have loop: "length (fst (snd (while_loop c fl l v))) \<le> length fl" for c fl l v
  proof (induction fl arbitrary: l v)
    case Nil
    show ?case by simp
  next
    case (Cons r rest)
    have "length (fst (snd (while_loop c rest l' v'))) \<le> Suc (length rest)" for l' v'
      using Cons.IH [of l' v'] by simp
    then show ?case
      by (simp split: prod.split sum.split bool.split)
  qed
  have drain: "fst (snd (drain_from c fl l v)) = fst (snd (while_loop c fl l v))" for c fl l v
    by (simp add: drain_from_def split: prod.split sum.split)
  have "fst (snd (cycle cf flags1 w)) =
      fst (snd (forward_next_batches cf flags1 (snd (time_time w))))"
    by (simp add: cycle_def time_time_def split: prod.split sum.split)
  then have "length (fst (snd (cycle cf flags1 w))) \<le> length flags1"
    using loop by (simp add: forward_next_batches_def drain)
  moreover have "fst (snd (cycle cf flags1 w)) = xb"
    using cy by (metis fst_conv snd_conv)
  moreover have "length flags1 < length flags"
    using sr x by (cases flags) auto
  ultimately show "((cf, xb, yb), cf, flags, w) \<in> measure (\<lambda>(cf, flags, w). length flags)"
    by simp
qed

text \<open>\<^verbatim>\<open>run\<close>: the loop between the two log lines; the second is in a \<^verbatim>\<open>finally\<close>.\<close>

definition run ::
    "configuration \<Rightarrow> bool list \<Rightarrow> world \<Rightarrow> (exn + unit) \<times> bool list \<times> world" where
  "run cf flags w =
     (case run_loop cf flags (snd (emit (Log TriggerStarted Info) w)) of
        (r, flags', w') \<Rightarrow> (r, flags', snd (emit (Log TriggerStopped Info) w')))"

text \<open>The world in which \<^verbatim>\<open>run\<close> makes its first call of \<^verbatim>\<open>forward_next_batches\<close>.\<close>

definition first_drain_world :: "world \<Rightarrow> world" where
  "first_drain_world w = snd (time_time (snd (emit (Log TriggerStarted Info) w)))"

section \<open>Auxiliary notions for the proofs\<close>

text \<open>
  A computation is \<open>framed\<close> by a set of effects when it leaves the cache and the two
  library functions alone and only adds effects of that set to the trace.
\<close>

definition framed :: "(effect \<Rightarrow> bool) \<Rightarrow> 'a io \<Rightarrow> bool" where
  "framed P m =
     (\<forall>w. cache (snd (m w)) = cache w \<and>
          strptime_timestamp (snd (m w)) = strptime_timestamp w \<and>
          orjson_dumps (snd (m w)) = orjson_dumps w \<and>
          (\<exists>es. trace (snd (m w)) = trace w @ es \<and> list_all P es))"

fun is_cursor_write :: "effect \<Rightarrow> bool" where
  "is_cursor_write (CursorWritten c) = True"
| "is_cursor_write _ = False"

fun is_push :: "effect \<Rightarrow> bool" where
  "is_push (PushEvents ms) = True"
| "is_push _ = False"

fun is_sleep :: "effect \<Rightarrow> bool" where
  "is_sleep (Sleep n) = True"
| "is_sleep _ = False"

section \<open>Sample pages and worlds\<close>

definition alert :: "string \<Rightarrow> string \<Rightarrow> json" where
  "alert i t = JObject [(''alertId'', JString i), (''startTime'', JString t)]"

definition page :: "json list \<Rightarrow> json \<Rightarrow> json" where
  "page its np =
     JObject [(''content'', JObject [(''paging'', JObject [(''urls'',
                JObject [(''nextPage'', np)])])]),
              (''data'', JArray its)]"

definition answer :: "json \<Rightarrow> api_result" where
  "answer j = Returns \<lparr>ok = True, status_code = 200, reason = ''OK'', json_result = Inr j\<rparr>"

definition failure :: api_result where
  "failure = Returns \<lparr>ok = False, status_code = 500, reason = ''Internal Server Error'',
                       json_result = Inl ValueError\<rparr>"

text \<open>A serialiser that keeps the identifier of an alert, and a table of two timestamps.\<close>

definition sample_dumps :: "json \<Rightarrow> string" where
  "sample_dumps j = (case dict_get j ''alertId'' JNull of Inr (JString s) \<Rightarrow> s | _ \<Rightarrow> [])"

definition sample_strptime :: "string \<Rightarrow> rat option" where
  "sample_strptime =
     map_of [(''2024-05-01T10:00:00.000000Z'', 1714557600),
             (''2024-05-01T10:00:30.500000Z'', 3429115261 / 2)]"

definition sample_world :: "json \<Rightarrow> rat list \<Rightarrow> api_result list \<Rightarrow> world" where
  "sample_world c readings answers =
     \<lparr>cache = [''cursor'' \<mapsto> c],
      clock = (\<lambda>n. if n < length readings then readings ! n else 0), clock_reads = 0,
      api = (\<lambda>n ps. if n < length answers then answers ! n else Raises HTTPError),
      api_calls = 0,
      strptime_timestamp = sample_strptime, orjson_dumps = sample_dumps, trace = []\<rparr>"

definition sample_configuration :: "int \<Rightarrow> configuration" where
  "sample_configuration n = \<lparr>frequency = 60, chunk_size = n, intake_key = ''intake''\<rparr>"

definition early :: json where
  "early = alert ''a'' ''2024-05-01T10:00:00.000000Z''"

definition late :: json where
  "late = alert ''b'' ''2024-05-01T10:00:30.500000Z''"

definition two_pages_world :: world where
  "two_pages_world = sample_world JNull [0, 5, 6]
     [answer (page [early] (JString ''https://next'')), answer (page [late] JNull)]"

definition failing_second_fetch_world :: world where
  "failing_second_fetch_world = sample_world (JString ''abc'') [0]
     [answer (page [early] (JString ''https://next'')), failure]"

definition unreachable_vendor_world :: world where
  "unreachable_vendor_world = sample_world (JString ''abc'') [0, 16] []"

definition first_run_world :: world where
  "first_run_world = (sample_world JNull [1000] [answer (page [] JNull)])\<lparr>cache := Map.empty\<rparr>"

definition slow_cycle_world :: world where
  "slow_cycle_world = sample_world (JString ''abc'') [0, 33 / 2] [answer (page [] JNull)]"

definition one_page_world :: world where
  "one_page_world = sample_world (JString ''abc'') [1714557700] [answer (page [early, late] JNull)]"

definition eleven_records_world :: world where
  "eleven_records_world =
     sample_world (JString ''abc'') [1714557700] [answer (page (replicate 11 early) JNull)]"

definition many_records_world :: world where
  "many_records_world =
     sample_world (JString ''abc'') [1714557700] [answer (page (replicate 1001 early) JNull)]"

text \<open>The values of \<^verbatim>\<open>startTime\<close> of the records of a page that are strings.\<close>

definition start_times :: "json list \<Rightarrow> string list" where
  "start_times its =
     concat (map (\<lambda>it. case subscript it ''startTime'' of
                          Inr (JString s) \<Rightarrow> [s]
                        | _ \<Rightarrow> []) its)"

definition second_fetch_unreachable_world :: world where
  "second_fetch_unreachable_world =
     sample_world (JString ''abc'') [0, 16] [answer (page [early] (JString ''https://next''))]"

definition no_cursor_unreachable_world :: world where
  "no_cursor_unreachable_world = (sample_world JNull [1000] [])\<lparr>cache := Map.empty\<rparr>"

definition unsorted_page_world :: world where
  "unsorted_page_world =
     sample_world (JString ''abc'') [1714557700] [answer (page [late, early] JNull)]"

definition stopped_after_first_page_world :: world where
  "stopped_after_first_page_world =
     sample_world (JString ''abc'') []
       [answer (page [early] (JString ''https://next'')), answer (page [late] JNull)]"

section \<open>Basic facts\<close>

lemma getattr_data_raises: "getattr_data v = Inl AttributeError"
  by (cases v) simp_all

lemma framed_return: "framed P (io_return x)"
  by (simp add: framed_def io_return_def)

lemma framed_raise: "framed P (io_raise e)"
  by (simp add: framed_def io_raise_def)

lemma framed_lift: "framed P (io_lift r)"
  by (simp add: framed_def io_lift_def)

lemma framed_get: "framed P (io_get f)"
  by (simp add: framed_def io_get_def)

lemma framed_time: "framed P time_time"
  by (simp add: framed_def time_time_def)

lemma framed_emit: "P e \<Longrightarrow> framed P (emit e)"
  by (simp add: framed_def emit_def)

lemma framed_bind:
  assumes "framed P m" and "\<And>x. framed P (f x)"
  shows "framed P (io_bind m f)"
proof (unfold framed_def, intro allI)
  fix w
  obtain r w1 where m: "m w = (r, w1)" by (cases "m w")
  from assms(1) m obtain es where 1: "cache w1 = cache w"
    "strptime_timestamp w1 = strptime_timestamp w" "orjson_dumps w1 = orjson_dumps w"
    "trace w1 = trace w @ es" "list_all P es"
    unfolding framed_def by (metis snd_conv)
  show "cache (snd (io_bind m f w)) = cache w \<and>
       strptime_timestamp (snd (io_bind m f w)) = strptime_timestamp w \<and>
       orjson_dumps (snd (io_bind m f w)) = orjson_dumps w \<and>
       (\<exists>es. trace (snd (io_bind m f w)) = trace w @ es \<and> list_all P es)"
  proof (cases r)
    case (Inl e)
    with m 1 show ?thesis by (auto simp: io_bind_def)
  next
    case (Inr x)
    from assms(2) [of x] obtain es' where 2: "cache (snd (f x w1)) = cache w1"
      "strptime_timestamp (snd (f x w1)) = strptime_timestamp w1"
      "orjson_dumps (snd (f x w1)) = orjson_dumps w1"
      "trace (snd (f x w1)) = trace w1 @ es'" "list_all P es'"
      unfolding framed_def by blast
    have "io_bind m f w = f x w1" using m Inr by (simp add: io_bind_def)
    with 1 2 show ?thesis by auto
  qed
qed

lemma framed_if: "framed P a \<Longrightarrow> framed P b \<Longrightarrow> framed P (if c then a else b)"
  by simp

lemma framed_list_alerts: "P (ListAlerts ps) \<Longrightarrow> framed P (client_list_alerts ps)"
  by (simp add: framed_def client_list_alerts_def Let_def split: api_result.split)

lemma framed_request_parameters: "framed P (request_parameters cf c)"
  unfolding request_parameters_def
  by (intro framed_if framed_bind framed_return framed_time)

lemma framed_get_next_events:
  assumes "\<And>ps. P (ListAlerts ps)" "\<And>m l. P (Log m l)"
  shows "framed P (get_next_events cf c)"
  unfolding get_next_events_def
  by (intro framed_if framed_bind framed_return framed_lift framed_emit framed_list_alerts
      framed_request_parameters assms)

lemma framed_loop_body:
  assumes "\<And>e. \<not> is_cursor_write e \<Longrightarrow> P e"
  shows "framed P (loop_body cf l)"
  unfolding loop_body_def Let_def push_events_to_intakes_def
  by (intro framed_if framed_bind framed_return framed_lift framed_emit framed_get framed_time
      framed_get_next_events assms) simp_all

subsection \<open>The loop runs its body at most once\<close>

lemma loop_body_no_more:
  "loop_body cf l w = (Inr (b, l'), w') \<Longrightarrow>
     \<not> has_more_messages l' \<and> cursor_var l' = cursor_var l"
  apply (simp add: loop_body_def Let_def io_bind_def io_return_def io_lift_def io_get_def
      getattr_data_raises split: prod.splits sum.splits if_splits)
  apply auto
  done

lemma while_loop_done: "\<not> has_more_messages l \<Longrightarrow> while_loop cf flags l w = (Inr l, flags, w)"
  by (cases flags) simp_all

lemma while_loop_stop:
  "self_running flags = (False, flags') \<Longrightarrow> while_loop cf flags l w =
     (Inr l, if has_more_messages l then flags' else flags, w)"
  by (cases flags) auto

lemma while_loop_pass:
  "has_more_messages l \<Longrightarrow> while_loop cf (True # rest) l w =
     (case loop_body cf l w of
        (Inl e, w') \<Rightarrow> (Inl e, rest, w')
      | (Inr (b, l'), w') \<Rightarrow> (Inr l', rest, w'))"
proof -
  assume h: "has_more_messages l"
  obtain r w' where b: "loop_body cf l w = (r, w')" by (cases "loop_body cf l w")
  show ?thesis
  proof (cases r)
    case (Inl e)
    with h b show ?thesis by simp
  next
    case (Inr p)
    obtain brk l' where p: "p = (brk, l')" by (cases p)
    have "\<not> has_more_messages l'" using loop_body_no_more b Inr p by blast
    then have "while_loop cf rest l' w' = (Inr l', rest, w')" by (rule while_loop_done)
    with h b Inr p show ?thesis by (cases brk) simp_all
  qed
qed

lemma loop_body_cache: "cache (snd (loop_body cf l w)) = cache w"
  using framed_loop_body [of "\<lambda>e. \<not> is_cursor_write e" cf l] by (simp add: framed_def)

lemma while_loop_frame:
  assumes "while_loop cf flags l w = (r, flags', w')"
  shows "cache w' = cache w \<and> (\<forall>l'. r = Inr l' \<longrightarrow> cursor_var l' = cursor_var l)"
proof (cases "has_more_messages l")
  case False
  with assms show ?thesis by (auto simp: while_loop_done)
next
  case True
  show ?thesis
  proof (cases flags)
    case Nil
    with assms show ?thesis by auto
  next
    case (Cons f rest)
    show ?thesis
    proof (cases f)
      case False
      with assms Cons True show ?thesis by auto
    next
      case f: True
      have wl: "while_loop cf flags l w =
          (case loop_body cf l w of
             (Inl e, w') \<Rightarrow> (Inl e, rest, w')
           | (Inr (b, l'), w') \<Rightarrow> (Inr l', rest, w'))"
      proof -
        from f have "flags = True # rest" using Cons by simp
        then show ?thesis using while_loop_pass [OF True] by simp
      qed
      obtain rb wb where b: "loop_body cf l w = (rb, wb)" by (cases "loop_body cf l w")
      have cb: "cache wb = cache w" using loop_body_cache [of cf l w] b by simp
      show ?thesis
      proof (cases rb)
        case (Inl e)
        with assms wl b cb show ?thesis by auto
      next
        case (Inr p)
        obtain brk l' where p: "p = (brk, l')" by (cases p)
        have "cursor_var l' = cursor_var l" using loop_body_no_more b Inr p by blast
        with assms wl b cb Inr p show ?thesis by auto
      qed
    qed
  qed
qed

lemma cursor_after_loop:
  "cursor_var l = cursor w \<Longrightarrow> cursor (snd (after_loop cf l w)) = cursor w"
  by (simp add: after_loop_def set_cursor_def io_bind_def emit_def push_events_to_intakes_def
      cursor_def)

lemma forward_cursor: "cursor (snd (snd (forward_next_batches cf flags w))) = cursor w"
proof -
  let ?l = "\<lparr>has_more_messages = True, cursor_var = cursor w, messages = []\<rparr>"
  obtain r fl w1 where wl: "while_loop cf flags ?l w = (r, fl, w1)"
    by (cases "while_loop cf flags ?l w") auto
  from while_loop_frame [OF wl]
  have c: "cache w1 = cache w" and v: "\<And>l'. r = Inr l' \<Longrightarrow> cursor_var l' = cursor w" by auto
  have cw: "cursor w1 = cursor w" using c by (simp add: cursor_def)
  show ?thesis
  proof (cases r)
    case (Inl e)
    with wl cw show ?thesis by (simp add: forward_next_batches_def drain_from_def)
  next
    case (Inr l')
    have "cursor (snd (after_loop cf l' w1)) = cursor w1"
      using cursor_after_loop [of l' w1 cf] v [OF Inr] cw by simp
    with Inr wl cw show ?thesis
      by (cases "after_loop cf l' w1") (simp add: forward_next_batches_def drain_from_def)
  qed
qed

lemma handle_exception_cache: "cache (snd (handle_exception e w)) = cache w"
  by (simp add: handle_exception_def io_bind_def emit_def io_raise_def)

lemma sleep_step_cache: "cache (snd (sleep_step cf s w)) = cache w"
  by (simp add: sleep_step_def io_bind_def emit_def io_return_def time_time_def Let_def)

lemma cycle_cursor: "cursor (snd (snd (cycle cf flags w))) = cursor w"
proof -
  let ?w1 = "w\<lparr>clock_reads := Suc (clock_reads w)\<rparr>"
  obtain r fl w2 where f: "forward_next_batches cf flags ?w1 = (r, fl, w2)"
    by (cases "forward_next_batches cf flags ?w1") auto
  have "cursor w2 = cursor ?w1" using forward_cursor [of cf flags ?w1] f by simp
  then have c2: "cursor w2 = cursor w" by (simp add: cursor_def)
  have h: "cursor (snd (handle_exception e w2)) = cursor w" for e
    using c2 handle_exception_cache [of e w2] by (simp add: cursor_def)
  have s: "cursor (snd (sleep_step cf t v)) = cursor v" for t v
    using sleep_step_cache [of cf t v] by (simp add: cursor_def)
  show ?thesis
  proof (cases r)
    case (Inl e)
    obtain r3 w3 where he: "handle_exception e w2 = (r3, w3)" by (cases "handle_exception e w2")
    have "cursor w3 = cursor w" using h [of e] he by simp
    with Inl f he s [of "clock w (clock_reads w)" w3] show ?thesis
      by (cases r3; cases "sleep_step cf (clock w (clock_reads w)) w3")
         (simp_all add: cycle_def time_time_def)
  next
    case (Inr u)
    with f c2 s [of "clock w (clock_reads w)" w2] show ?thesis
      by (cases "sleep_step cf (clock w (clock_reads w)) w2") (simp add: cycle_def time_time_def)
  qed
qed

lemma loop_body_next_page:
  assumes "get_next_events cf (cursor_var l) w = (Inr batch, w1)" "batch \<noteq> JNull"
    "next_page batch = Inr np" "np \<noteq> JNull"
  shows "loop_body cf l w =
    (case get_next_events cf (cursor_var l) w1 of
       (Inl e, w2) \<Rightarrow> (Inl e, w2)
     | (Inr again, w2) \<Rightarrow> (Inl AttributeError, w2))"
  using assms
  by (simp add: loop_body_def Let_def io_bind_def io_lift_def getattr_data_raises
      split: prod.split sum.split)

declare while_loop.simps [simp del]

lemma drain_from_pass:
  "has_more_messages l \<Longrightarrow> drain_from cf (True # rest) l w =
     (case loop_body cf l w of
        (Inl e, w') \<Rightarrow> (Inl e, rest, w')
      | (Inr (b, l'), w') \<Rightarrow> (case after_loop cf l' w' of (r, w'') \<Rightarrow> (r, rest, w'')))"
  by (simp add: drain_from_def while_loop_pass split: prod.split sum.split)

lemma drain_from_stop:
  "has_more_messages l \<Longrightarrow> self_running flags = (False, flags') \<Longrightarrow>
   drain_from cf flags l w = (case after_loop cf l w of (r, w') \<Rightarrow> (r, flags', w'))"
  by (simp add: drain_from_def while_loop_stop)

lemma forward_pass:
  "forward_next_batches cf (True # rest) w =
     (case loop_body cf \<lparr>has_more_messages = True, cursor_var = cursor w, messages = []\<rparr> w of
        (Inl e, w') \<Rightarrow> (Inl e, rest, w')
      | (Inr (b, l'), w') \<Rightarrow> (case after_loop cf l' w' of (r, w'') \<Rightarrow> (r, rest, w'')))"
  by (simp add: forward_next_batches_def drain_from_pass)

lemma get_next_events_cache: "cache (snd (get_next_events cf c w)) = cache w"
  using framed_get_next_events [of "\<lambda>e. True" cf c] by (simp add: framed_def)

lemma run_loop_pass:
  "run_loop cf (True # flags) w =
     (case cycle cf flags w of
        (Inl e, flags2, w') \<Rightarrow> (Inl e, flags2, w')
      | (Inr u, flags2, w') \<Rightarrow> run_loop cf flags2 w')"
  by (subst run_loop.simps) simp

lemma run_loop_stop: "self_running flags = (False, flags') \<Longrightarrow> run_loop cf flags w = (Inr (), flags', w)"
  by (subst run_loop.simps) simp

lemma cycle_raise:
  assumes "forward_next_batches cf flags (snd (time_time w)) = (Inl e, flags', w')"
    "\<not> is_http_error e"
  shows "cycle cf flags w =
    (Inl e, flags', snd (emit (LogException e ''An unknown exception occurred'') w'))"
  using assms
  by (simp add: cycle_def time_time_def handle_exception_def io_bind_def emit_def io_raise_def)

lemmas io_defs = io_bind_def io_return_def io_raise_def io_lift_def io_get_def emit_def
  time_time_def client_list_alerts_def push_events_to_intakes_def set_cursor_def

lemmas sample_defs = sample_world_def sample_configuration_def answer_def failure_def
  page_def alert_def early_def late_def sample_dumps_def sample_strptime_def

lemma fst_sndI: "fst p = a \<Longrightarrow> p = (a, snd p)"
  by (cases p) simp

lemma sleep_step_eq:
  "sleep_step cf start w =
     (Inr (), w\<lparr>clock_reads := Suc (clock_reads w),
               trace := trace w @
                 ForwardEventsDuration (intake_key cf) (py_int (clock w (clock_reads w) - start)) #
                 (if py_int (clock w (clock_reads w) - start) < frequency cf
                  then [Sleep (frequency cf - py_int (clock w (clock_reads w) - start))]
                  else [])\<rparr>)"
  by (simp add: sleep_step_def io_defs Let_def)

lemma after_loop_eq:
  "after_loop cf l w =
     (Inr (), w\<lparr>cache := (cache w)(''cursor'' \<mapsto> cursor_var l),
               trace := trace w @ CursorWritten (cursor_var l) #
                 (if messages l \<noteq> []
                  then [Log (SendingBatch (length (messages l))) Info,
                        OutcomingEvents (intake_key cf) (length (messages l)),
                        PushEvents (messages l)]
                  else [Log NoMessages Info])\<rparr>)"
  by (simp add: after_loop_def io_defs)

lemma cycle_recover:
  assumes "forward_next_batches cf flags (snd (time_time w)) = (Inl e, flags', w')"
    "is_http_error e"
  shows "cycle cf flags w =
    (Inr (), flags', snd (sleep_step cf (clock w (clock_reads w))
       (snd (emit (LogException e ''Failed to get next batch of events'') w'))))"
  using assms
  by (simp add: cycle_def time_time_def handle_exception_def emit_def sleep_step_eq)

lemma triple_eqI: "fst p = a \<Longrightarrow> fst (snd p) = b \<Longrightarrow> p = (a, b, snd (snd p))"
  by (cases p) auto

lemma get_next_events_eq:
  "get_next_events cf c w =
     (case request_parameters cf c w of (Inl e, v) \<Rightarrow> (Inl e, v) | (Inr ps, v) \<Rightarrow>
        (case api v (api_calls v) ps of
           Raises e \<Rightarrow>
             (Inl e, v\<lparr>api_calls := Suc (api_calls v), trace := trace v @ [ListAlerts ps]\<rparr>)
         | Returns r \<Rightarrow>
             if ok r
             then (json_result r,
                   v\<lparr>api_calls := Suc (api_calls v), trace := trace v @ [ListAlerts ps]\<rparr>)
             else (Inr JNull,
                   v\<lparr>api_calls := Suc (api_calls v),
                     trace := trace v @ [ListAlerts ps,
                       Log (RequestFailed (status_code r) (reason r)) Error]\<rparr>)))"
  by (simp add: get_next_events_def io_defs Let_def split: prod.split sum.split api_result.split)

lemma request_parameters_fallback:
  "\<not> truthy c \<Longrightarrow> request_parameters cf c w =
     (Inr \<lparr>limit_param = pagination_limit cf, cursor_param = None,
           startTime_param = Some (py_int (clock w (clock_reads w)) - 300)\<rparr>,
      w\<lparr>clock_reads := Suc (clock_reads w)\<rparr>)"
  by (simp add: request_parameters_def io_defs)

lemma request_parameters_cursor:
  "truthy c \<Longrightarrow> request_parameters cf c w =
     (Inr \<lparr>limit_param = pagination_limit cf, cursor_param = Some c, startTime_param = None\<rparr>,
      w)"
  by (simp add: request_parameters_def io_defs)

lemma framed_trace: "framed P m \<Longrightarrow> \<exists>es. trace (snd (m w)) = trace w @ es \<and> list_all P es"
  by (simp add: framed_def)

lemma io_bind_trace:
  assumes "\<And>x. framed P (k x)"
  shows "\<exists>es. trace (snd (io_bind m k w)) = trace (snd (m w)) @ es \<and> list_all P es"
proof (cases "m w")
  case (Pair r v)
  show ?thesis
  proof (cases r)
    case (Inl e)
    with Pair show ?thesis by (simp add: io_bind_def)
  next
    case (Inr x)
    with Pair framed_trace [OF assms, of x v] show ?thesis by (simp add: io_bind_def)
  qed
qed

lemma loop_body_after_fetch:
  "\<exists>es. trace (snd (loop_body cf l w)) = trace (snd (get_next_events cf (cursor_var l) w)) @ es
     \<and> list_all (\<lambda>e. \<not> is_cursor_write e) es"
  unfolding loop_body_def Let_def push_events_to_intakes_def
  apply simp
  apply (rule io_bind_trace)
  apply (intro framed_if framed_bind framed_return framed_lift framed_emit framed_get
      framed_time framed_get_next_events)
  apply simp_all
  done

lemma forward_trace_after_fetch:
  "\<exists>es. trace (snd (snd (forward_next_batches cf (True # flags) w))) =
     trace (snd (get_next_events cf (cursor w) w)) @ es"
proof -
  let ?l = "\<lparr>has_more_messages = True, cursor_var = cursor w, messages = []\<rparr>"
  obtain es where es: "trace (snd (loop_body cf ?l w)) =
      trace (snd (get_next_events cf (cursor w) w)) @ es"
    using loop_body_after_fetch [of cf ?l w] by auto
  obtain r v where b: "loop_body cf ?l w = (r, v)" by (cases "loop_body cf ?l w")
  show ?thesis
  proof (cases r)
    case (Inl e)
    with b es show ?thesis by (simp add: forward_pass)
  next
    case (Inr p)
    with b es show ?thesis by (cases p) (simp add: forward_pass after_loop_eq)
  qed
qed

declare run_loop.simps [simp del]

lemma cycle_normal:
  assumes "forward_next_batches cf flags (snd (time_time w)) = (Inr u, flags', w')"
  shows "cycle cf flags w =
    (Inr (), flags', snd (sleep_step cf (clock w (clock_reads w)) w'))"
  using assms by (simp add: cycle_def time_time_def sleep_step_eq)

lemma py_int_samples:
  "py_int 0 = 0" "py_int (33 / 2) = 16" "py_int (139 / 2) = 69" "py_int 16 = 16"
  by (simp_all add: py_int_def) code_simp+

lemma slow_cycle_forward:
  "forward_next_batches (sample_configuration 10) [True] (snd (time_time slow_cycle_world)) =
     (Inr (), [],
      slow_cycle_world\<lparr>clock_reads := 1, api_calls := 1,
        trace := [ListAlerts \<lparr>limit_param = 1000, cursor_param = Some (JString ''abc''),
                              startTime_param = None\<rparr>,
                  CursorWritten (JString ''abc''), Log NoMessages Info]\<rparr>)"
  by (simp add: forward_pass loop_body_def Let_def get_next_events_eq request_parameters_cursor
      cursor_def slow_cycle_world_def sample_world_def sample_configuration_def answer_def
      page_def next_page_def exn_bind_def pagination_limit_def io_defs after_loop_eq)

lemma most_recent_early_late:
  "get_most_recent_timestamp_from_items sample_strptime (JArray [early, late]) =
     Inr (3429115261 / 2)"
  by (simp add: get_most_recent_timestamp_from_items_def py_max_key_def extract_timestamp_def
      exn_bind_def early_def late_def alert_def sample_strptime_def)

lemma one_page_forward:
  "forward_next_batches (sample_configuration 10) [True] one_page_world =
     (Inr (), [],
      one_page_world\<lparr>clock_reads := 1, api_calls := 1,
        trace := [ListAlerts \<lparr>limit_param = 1000, cursor_param = Some (JString ''abc''),
                              startTime_param = None\<rparr>,
                  EventsLag ''intake'' 69, IncomingEvents ''intake'' 2,
                  CursorWritten (JString ''abc''), Log (SendingBatch 2) Info,
                  OutcomingEvents ''intake'' 2, PushEvents [''a'', ''b'']]\<rparr>)"
proof -
  have d: "map sample_dumps [early, late] = [''a'', ''b'']"
    by (simp add: sample_dumps_def early_def late_def alert_def)
  have p: "page [early, late] JNull \<noteq> JNull"
    "next_page (page [early, late] JNull) = Inr JNull"
    "dict_get (page [early, late] JNull) ''data'' (JArray []) = Inr (JArray [early, late])"
    by (simp_all add: page_def next_page_def exn_bind_def)
  show ?thesis
    using p d most_recent_early_late py_int_samples
    by (simp add: forward_pass loop_body_def Let_def get_next_events_eq
        request_parameters_cursor cursor_def one_page_world_def sample_world_def
        sample_configuration_def answer_def pagination_limit_def io_defs after_loop_eq)
qed

lemma while_loop_trace:
  assumes "while_loop cf flags l w = (r, flags', w')"
  shows "\<exists>es. trace w' = trace w @ es \<and> list_all (\<lambda>e. \<not> is_cursor_write e) es"
proof (cases "has_more_messages l")
  case False
  with assms show ?thesis by (auto simp: while_loop_done)
next
  case True
  show ?thesis
  proof (cases flags)
    case Nil
    with assms show ?thesis by (auto simp: while_loop.simps)
  next
    case (Cons f rest)
    show ?thesis
    proof (cases f)
      case False
      with assms Cons True show ?thesis by (auto simp: while_loop.simps)
    next
      case f: True
      have wl: "while_loop cf flags l w =
          (case loop_body cf l w of
             (Inl e, w') \<Rightarrow> (Inl e, rest, w')
           | (Inr (b, l'), w') \<Rightarrow> (Inr l', rest, w'))"
      proof -
        from f have "flags = True # rest" using Cons by simp
        then show ?thesis using while_loop_pass [OF True] by simp
      qed
      have "framed (\<lambda>e. \<not> is_cursor_write e) (loop_body cf l)"
        by (rule framed_loop_body) simp
      then obtain es where es: "trace (snd (loop_body cf l w)) = trace w @ es"
        "list_all (\<lambda>e. \<not> is_cursor_write e) es"
        using framed_trace by blast
      obtain rb wb where b: "loop_body cf l w = (rb, wb)" by (cases "loop_body cf l w")
      show ?thesis
      proof (cases rb)
        case (Inl e)
        with assms wl b es show ?thesis by auto
      next
        case (Inr p)
        with assms wl b es show ?thesis by (cases p) auto
      qed
    qed
  qed
qed

lemma two_pages_forward:
  "fst (forward_next_batches (sample_configuration 10) [True]
          (first_drain_world two_pages_world)) = Inl AttributeError \<and>
   fst (snd (forward_next_batches (sample_configuration 10) [True]
          (first_drain_world two_pages_world))) = [] \<and>
   trace (snd (snd (forward_next_batches (sample_configuration 10) [True]
          (first_drain_world two_pages_world)))) =
     [Log TriggerStarted Info,
      ListAlerts \<lparr>limit_param = 1000, cursor_param = None, startTime_param = Some (- 295)\<rparr>,
      ListAlerts \<lparr>limit_param = 1000, cursor_param = None, startTime_param = Some (- 294)\<rparr>]"
proof -
  have py: "py_int 5 = 5" "py_int 6 = 6" by (simp_all add: py_int_def)
  have p: "page [early] (JString ''https://next'') \<noteq> JNull"
    "next_page (page [early] (JString ''https://next'')) = Inr (JString ''https://next'')"
    by (simp_all add: page_def next_page_def exn_bind_def)
  show ?thesis
    using p py
    by (simp add: forward_pass loop_body_def Let_def get_next_events_eq
        request_parameters_fallback cursor_def first_drain_world_def two_pages_world_def
        sample_world_def sample_configuration_def answer_def pagination_limit_def io_defs
        getattr_data_raises)
qed

lemma slow_cycle_result:
  "cycle (sample_configuration 10) [True] slow_cycle_world =
     (Inr (), [],
      slow_cycle_world\<lparr>clock_reads := 2, api_calls := 1,
        trace := [ListAlerts \<lparr>limit_param = 1000, cursor_param = Some (JString ''abc''),
                              startTime_param = None\<rparr>,
                  CursorWritten (JString ''abc''), Log NoMessages Info,
                  ForwardEventsDuration ''intake'' 16, Sleep 44]\<rparr>)"
proof -
  have k0: "clock slow_cycle_world (clock_reads slow_cycle_world) = 0"
    by (simp add: slow_cycle_world_def sample_world_def)
  have k1: "clock slow_cycle_world (Suc 0) = 33 / 2"
    by (simp add: slow_cycle_world_def sample_world_def)
  have c: "frequency (sample_configuration 10) = 60"
    "intake_key (sample_configuration 10) = ''intake''"
    by (simp_all add: sample_configuration_def)
  show ?thesis
    unfolding cycle_normal [OF slow_cycle_forward] sleep_step_eq
    by (simp add: k0 k1 c py_int_samples)
qed

lemma max_scan_replicate:
  "f x = Inr k \<Longrightarrow> py_gt k (snd best) = Inr False \<Longrightarrow>
     max_scan f best (replicate n x) = Inr best"
  by (induction n) (simp_all add: exn_bind_def)

lemma most_recent_replicate_early:
  "get_most_recent_timestamp_from_items sample_strptime (JArray (replicate (Suc n) early)) =
     Inr 1714557600"
proof -
  have k: "subscript early ''startTime'' = Inr (JString ''2024-05-01T10:00:00.000000Z'')"
    by (simp add: early_def alert_def)
  have "max_scan (\<lambda>item. subscript item ''startTime'')
      (early, JString ''2024-05-01T10:00:00.000000Z'') (replicate n early) =
      Inr (early, JString ''2024-05-01T10:00:00.000000Z'')"
    by (rule max_scan_replicate [where f = "\<lambda>item. subscript item ''startTime''"
          and k = "JString ''2024-05-01T10:00:00.000000Z''"]) (simp_all add: k)
  then show ?thesis
    by (simp add: get_most_recent_timestamp_from_items_def py_max_key_def extract_timestamp_def
        exn_bind_def k sample_strptime_def)
qed

lemma filter_none: "list_all (\<lambda>e. \<not> P e) xs \<Longrightarrow> filter P xs = []"
  by (induction xs) auto

lemma sample_dumps_early: "sample_dumps early = ''a''"
  by (simp add: sample_dumps_def early_def alert_def)

lemma page_parts:
  "page its np \<noteq> JNull" "next_page (page its np) = Inr np"
  "dict_get (page its np) ''data'' (JArray []) = Inr (JArray its)"
  by (simp_all add: page_def next_page_def exn_bind_def)

lemma start_times_Cons:
  "subscript x ''startTime'' = Inr (JString s) \<Longrightarrow> start_times (x # xs) = s # start_times xs"
  by (simp add: start_times_def)

lemma set_start_times:
  "set (start_times its) = {s. \<exists>it\<in>set its. subscript it ''startTime'' = Inr (JString s)}"
  by (auto simp: start_times_def split: sum.splits json.splits)

lemma max_scan_strings:
  assumes "\<forall>it\<in>set xs. \<exists>s. subscript it ''startTime'' = Inr (JString s)"
    and "subscript b ''startTime'' = Inr (JString kb)"
  shows "\<exists>b'. max_scan (\<lambda>item. subscript item ''startTime'') (b, JString kb) xs =
      Inr (b', JString (Max (set (kb # start_times xs)))) \<and>
    subscript b' ''startTime'' = Inr (JString (Max (set (kb # start_times xs))))"
  using assms
proof (induction xs arbitrary: b kb)
  case Nil
  then show ?case by (simp add: start_times_def)
next
  case (Cons x xs)
  from Cons.prems(1) obtain s where s: "subscript x ''startTime'' = Inr (JString s)"
    by auto
  have rest: "\<forall>it\<in>set xs. \<exists>s. subscript it ''startTime'' = Inr (JString s)"
    using Cons.prems(1) by simp
  let ?S = "set (start_times xs)"
  have fin: "finite ?S" by simp
  show ?case
  proof (cases "kb < s")
    case True
    from Cons.IH [OF rest s] obtain b' where
      b': "max_scan (\<lambda>item. subscript item ''startTime'') (x, JString s) xs =
          Inr (b', JString (Max (set (s # start_times xs))))"
      "subscript b' ''startTime'' = Inr (JString (Max (set (s # start_times xs))))"
      by blast
    have "Max (insert kb (insert s ?S)) = max kb (Max (insert s ?S))"
      using fin by (simp add: Max_insert)
    also have "\<dots> = Max (insert s ?S)"
    proof -
      have m: "s \<le> Max (insert s ?S)" using fin by simp
      from True have "kb \<le> s" by (rule less_imp_le)
      then have "kb \<le> Max (insert s ?S)" using m by (rule order_trans)
      then show ?thesis by (rule max_absorb2)
    qed
    finally have "Max (set (kb # start_times (x # xs))) = Max (set (s # start_times xs))"
      by (simp add: start_times_Cons [OF s])
    with b' s True show ?thesis by (simp add: exn_bind_def)
  next
    case False
    from Cons.IH [OF rest Cons.prems(2)] obtain b' where
      b': "max_scan (\<lambda>item. subscript item ''startTime'') (b, JString kb) xs =
          Inr (b', JString (Max (set (kb # start_times xs))))"
      "subscript b' ''startTime'' = Inr (JString (Max (set (kb # start_times xs))))"
      by blast
    have "Max (insert kb (insert s ?S)) = Max (insert s (insert kb ?S))"
      by (simp add: insert_commute)
    also have "\<dots> = max s (Max (insert kb ?S))"
      using fin by (simp add: Max_insert)
    also have "\<dots> = Max (insert kb ?S)"
    proof -
      have m: "kb \<le> Max (insert kb ?S)" using fin by simp
      from False have "s \<le> kb" by (rule leI)
      then have "s \<le> Max (insert kb ?S)" using m by (rule order_trans)
      then show ?thesis by (rule max_absorb2)
    qed
    finally have "Max (set (kb # start_times (x # xs))) = Max (set (kb # start_times xs))"
      by (simp add: start_times_Cons [OF s])
    with b' s False show ?thesis by (simp add: exn_bind_def)
  qed
qed

lemma most_recent_is_maximum:
  assumes "its \<noteq> []" and "\<forall>it\<in>set its. \<exists>s. subscript it ''startTime'' = Inr (JString s)"
  shows "get_most_recent_timestamp_from_items strp (JArray its) =
    (case strp (Max (set (start_times its))) of None \<Rightarrow> Inl ValueError | Some t \<Rightarrow> Inr t)"
proof -
  from assms(1) obtain x xs where its: "its = x # xs" by (cases its) auto
  from assms(2) its obtain s where s: "subscript x ''startTime'' = Inr (JString s)" by auto
  have rest: "\<forall>it\<in>set xs. \<exists>s. subscript it ''startTime'' = Inr (JString s)"
    using assms(2) its by simp
  from max_scan_strings [OF rest s] obtain b' where
    b': "max_scan (\<lambda>item. subscript item ''startTime'') (x, JString s) xs =
        Inr (b', JString (Max (set (s # start_times xs))))"
    "subscript b' ''startTime'' = Inr (JString (Max (set (s # start_times xs))))"
    by blast
  have "start_times its = s # start_times xs"
    unfolding its by (rule start_times_Cons [OF s])
  with b' s its show ?thesis
    by (simp add: get_most_recent_timestamp_from_items_def py_max_key_def
        extract_timestamp_def exn_bind_def)
qed

lemma flag_read_once:
  "fst (snd (forward_next_batches cf (f # rest) w)) = rest"
proof (cases f)
  case True
  then show ?thesis
    by (simp add: forward_pass split: prod.split sum.split)
next
  case False
  then show ?thesis
    by (simp add: forward_next_batches_def drain_from_stop after_loop_eq)
qed

section \<open>The claims\<close>

text \<open>
  C1, amended. A drain that returns has written the cursor exactly once, after the effects of
  the loop (among them the sends made inside the loop) and before the send of what is left
  of the batch; the value written is the cursor read at the start of the cycle. A drain
  that raises has written no cursor.
\<close>

theorem cursor_written_before_final_flush:
  "case forward_next_batches cf flags w of
     (Inl e, fl, w') \<Rightarrow>
       cache w' = cache w \<and>
       (\<exists>es. trace w' = trace w @ es \<and> list_all (\<lambda>e. \<not> is_cursor_write e) es)
   | (Inr u, fl, w') \<Rightarrow>
       cache w' = (cache w)(''cursor'' \<mapsto> cursor w) \<and>
       (\<exists>es ms. trace w' = trace w @ es @ CursorWritten (cursor w) #
           (if ms \<noteq> []
            then [Log (SendingBatch (length ms)) Info,
                  OutcomingEvents (intake_key cf) (length ms), PushEvents ms]
            else [Log NoMessages Info]) \<and>
          list_all (\<lambda>e. \<not> is_cursor_write e) es)"
proof -
  let ?l = "\<lparr>has_more_messages = True, cursor_var = cursor w, messages = []\<rparr>"
  obtain r fl w1 where wl: "while_loop cf flags ?l w = (r, fl, w1)"
    by (cases "while_loop cf flags ?l w") auto
  from while_loop_frame [OF wl]
  have c: "cache w1 = cache w" and v: "\<And>l'. r = Inr l' \<Longrightarrow> cursor_var l' = cursor w" by auto
  from while_loop_trace [OF wl] obtain es where es: "trace w1 = trace w @ es"
    "list_all (\<lambda>e. \<not> is_cursor_write e) es" by blast
  show ?thesis
  proof (cases r)
    case (Inl e)
    with wl c es show ?thesis by (simp add: forward_next_batches_def drain_from_def)
  next
    case (Inr l')
    have "\<exists>es ms. trace w1 @ CursorWritten (cursor w) #
           (if messages l' \<noteq> []
            then [Log (SendingBatch (length (messages l'))) Info,
                  OutcomingEvents (intake_key cf) (length (messages l')),
                  PushEvents (messages l')]
            else [Log NoMessages Info]) =
        trace w @ es @ CursorWritten (cursor w) #
           (if ms \<noteq> []
            then [Log (SendingBatch (length ms)) Info,
                  OutcomingEvents (intake_key cf) (length ms), PushEvents ms]
            else [Log NoMessages Info]) \<and>
          list_all (\<lambda>e. \<not> is_cursor_write e) es"
      using es by (intro exI [of _ es] exI [of _ "messages l'"]) simp
    with Inr wl c v [OF Inr] show ?thesis
      by (simp add: forward_next_batches_def drain_from_def after_loop_eq)
  qed
qed

theorem cursor_written_before_final_flush_witness:
  "cache (snd (snd (forward_next_batches (sample_configuration 10) [True]
      (snd (time_time slow_cycle_world))))) =
     (cache (snd (time_time slow_cycle_world)))(''cursor'' \<mapsto> JString ''abc'') \<and>
   (\<exists>es ms. [ListAlerts \<lparr>limit_param = 1000, cursor_param = Some (JString ''abc''),
                          startTime_param = None\<rparr>,
             CursorWritten (JString ''abc''), Log NoMessages Info] =
       es @ CursorWritten (JString ''abc'') #
         (if ms \<noteq> []
          then [Log (SendingBatch (length ms)) Info, OutcomingEvents ''intake'' (length ms),
                PushEvents ms]
          else [Log NoMessages Info]) \<and>
       list_all (\<lambda>e. \<not> is_cursor_write e) es)"
proof -
  let ?w = "snd (time_time slow_cycle_world)"
  have c: "cursor ?w = JString ''abc''"
    by (simp add: time_time_def slow_cycle_world_def sample_world_def cursor_def)
  have t: "trace ?w = []"
    by (simp add: time_time_def slow_cycle_world_def sample_world_def)
  have k: "intake_key (sample_configuration 10) = ''intake''"
    by (simp add: sample_configuration_def)
  have cw: "cache ?w = cache slow_cycle_world"
    by (simp add: time_time_def)
  from cursor_written_before_final_flush [where cf = "sample_configuration 10"
      and flags = "[True]" and w = ?w]
  show ?thesis
    unfolding slow_cycle_forward by (simp add: c t k cw)
qed

text \<open>
  C1 as stated fails: in a cycle that fetches one page of two records, the cursor is
  written before the batch of the cycle is handed to the sink.
\<close>

theorem cursor_written_before_last_push:
  "trace (snd (snd (forward_next_batches (sample_configuration 10) [True] one_page_world))) =
     [ListAlerts \<lparr>limit_param = 1000, cursor_param = Some (JString ''abc''),
                  startTime_param = None\<rparr>,
      EventsLag ''intake'' 69, IncomingEvents ''intake'' 2,
      CursorWritten (JString ''abc''), Log (SendingBatch 2) Info,
      OutcomingEvents ''intake'' 2, PushEvents [''a'', ''b'']]"
  by (simp add: one_page_forward)

text \<open>
  C2, amended. The threshold of the send inside the loop is \<^verbatim>\<open>max(chunk_size, 1000)\<close>. When
  a page without next-page marker, whose records are well formed, brings the batch above
  that threshold, the pass through the loop makes exactly one call of the sink, with all
  the records of the batch, and leaves the batch empty.
\<close>

theorem flush_above_pagination_limit:
  assumes "get_next_events cf (cursor_var l) w = (Inr batch, w1)" and "batch \<noteq> JNull"
    and "next_page batch = Inr JNull"
    and "dict_get batch ''data'' (JArray []) = Inr (JArray its)"
    and "its \<noteq> [] \<longrightarrow>
      get_most_recent_timestamp_from_items (strptime_timestamp w1) (JArray its) = Inr seen"
    and "max (chunk_size cf) 1000 < int (length (messages l) + length its)"
  shows "\<exists>w2 lag.
      loop_body cf l w =
        (Inr (False, l\<lparr>has_more_messages := False, messages := []\<rparr>), w2) \<and>
      trace w2 = trace w1 @ lag @
        [Log (SendingBatch (length (messages l) + length its)) Info,
         OutcomingEvents (intake_key cf) (length (messages l) + length its),
         PushEvents (messages l @ map (orjson_dumps w1) its)] \<and>
      list_all (\<lambda>e. \<not> is_push e) lag"
proof (cases "its = []")
  case True
  with assms show ?thesis
    by (simp add: loop_body_def Let_def io_defs pagination_limit_def)
next
  case False
  with assms(5) have s: "get_most_recent_timestamp_from_items (strptime_timestamp w1)
      (JArray its) = Inr seen" by simp
  let ?lag = "[EventsLag (intake_key cf) (py_int (clock w1 (clock_reads w1) - seen)),
      IncomingEvents (intake_key cf) (length its)]"
  let ?n = "length (messages l) + length its"
  let ?w2 = "w1\<lparr>clock_reads := Suc (clock_reads w1),
      trace := trace w1 @ ?lag @
        [Log (SendingBatch ?n) Info, OutcomingEvents (intake_key cf) ?n,
         PushEvents (messages l @ map (orjson_dumps w1) its)]\<rparr>"
  have "loop_body cf l w =
      (Inr (False, l\<lparr>has_more_messages := False, messages := []\<rparr>), ?w2)"
    using assms(1-4,6) False s
    by (simp add: loop_body_def Let_def io_defs pagination_limit_def)
  moreover have "trace ?w2 = trace w1 @ ?lag @
        [Log (SendingBatch ?n) Info, OutcomingEvents (intake_key cf) ?n,
         PushEvents (messages l @ map (orjson_dumps w1) its)]" by simp
  moreover have "list_all (\<lambda>e. \<not> is_push e) ?lag" by simp
  ultimately show ?thesis by blast
qed

theorem flush_above_pagination_limit_witness:
  "max (chunk_size (sample_configuration 10)) 1000 < int (length (replicate 1001 early)) \<and>
   fst (loop_body (sample_configuration 10)
     \<lparr>has_more_messages = True, cursor_var = JString ''abc'', messages = []\<rparr>
     many_records_world) =
     Inr (False, \<lparr>has_more_messages = False, cursor_var = JString ''abc'', messages = []\<rparr>) \<and>
   filter is_push (trace (snd (loop_body (sample_configuration 10)
     \<lparr>has_more_messages = True, cursor_var = JString ''abc'', messages = []\<rparr>
     many_records_world))) = [PushEvents (replicate 1001 ''a'')]"
proof -
  let ?cf = "sample_configuration 10"
  let ?l = "\<lparr>has_more_messages = True, cursor_var = JString ''abc'', messages = []\<rparr>"
  let ?w1 = "many_records_world\<lparr>api_calls := 1,
      trace := [ListAlerts \<lparr>limit_param = 1000, cursor_param = Some (JString ''abc''),
                            startTime_param = None\<rparr>]\<rparr>"
  have g: "get_next_events ?cf (cursor_var ?l) many_records_world =
      (Inr (page (replicate 1001 early) JNull), ?w1)"
    by (simp add: get_next_events_eq request_parameters_cursor many_records_world_def
        sample_world_def sample_configuration_def answer_def pagination_limit_def)
  have m: "replicate 1001 early \<noteq> [] \<longrightarrow>
      get_most_recent_timestamp_from_items (strptime_timestamp ?w1)
        (JArray (replicate 1001 early)) = Inr 1714557600"
    using most_recent_replicate_early [of 1000]
    by (simp add: many_records_world_def sample_world_def)
  have n: "max (chunk_size ?cf) 1000 < int (length (messages ?l) + length (replicate 1001 early))"
    by (simp add: sample_configuration_def)
  have d: "orjson_dumps ?w1 = sample_dumps"
    by (simp add: many_records_world_def sample_world_def)
  from flush_above_pagination_limit [OF g page_parts(1) page_parts(2) page_parts(3) m n]
  obtain w2 lag where r: "loop_body ?cf ?l many_records_world =
        (Inr (False, ?l\<lparr>has_more_messages := False, messages := []\<rparr>), w2)"
    and t: "trace w2 = trace ?w1 @ lag @
        [Log (SendingBatch (length (messages ?l) + length (replicate 1001 early))) Info,
         OutcomingEvents (intake_key ?cf) (length (messages ?l) + length (replicate 1001 early)),
         PushEvents (messages ?l @ map (orjson_dumps ?w1) (replicate 1001 early))]"
    and q: "list_all (\<lambda>e. \<not> is_push e) lag"
    by blast
  have "filter is_push (trace w2) = [PushEvents (replicate 1001 ''a'')]"
    unfolding t d using filter_none [OF q] by (simp add: sample_dumps_early)
  with r n show ?thesis by simp
qed

text \<open>
  C2 as stated fails: with a chunk size of 10, a page of 11 records brings the batch to 11
  records, above the configured size, and the pass through the loop sends nothing and
  keeps the 11 records in the batch.
\<close>

theorem no_flush_above_chunk_size:
  "chunk_size (sample_configuration 10) < int (length (replicate 11 early)) \<and>
   fst (loop_body (sample_configuration 10)
     \<lparr>has_more_messages = True, cursor_var = JString ''abc'', messages = []\<rparr>
     eleven_records_world) =
     Inr (False, \<lparr>has_more_messages = False, cursor_var = JString ''abc'',
                  messages = replicate 11 ''a''\<rparr>) \<and>
   filter is_push (trace (snd (loop_body (sample_configuration 10)
     \<lparr>has_more_messages = True, cursor_var = JString ''abc'', messages = []\<rparr>
     eleven_records_world))) = []"
proof -
  have m: "get_most_recent_timestamp_from_items sample_strptime
        (JArray (replicate 11 early)) = Inr 1714557600"
    using most_recent_replicate_early [of 10] by simp
  have py: "py_int 100 = 100" by (simp add: py_int_def)
  show ?thesis
    using m py
    by (simp add: loop_body_def Let_def get_next_events_eq request_parameters_cursor
        eleven_records_world_def sample_world_def sample_configuration_def answer_def
        page_parts pagination_limit_def io_defs sample_dumps_early)
qed

text \<open>
  C3, amended. When the page fetched in a cycle has a next-page marker, line 146 calls
  \<^verbatim>\<open>get_next_events\<close> a second time and reads the attribute \<^verbatim>\<open>data\<close> of what it returns.
  The drain never returns normally then and writes no cursor. When the second call raises,
  the drain raises that exception. When the second call returns a value (a dictionary or
  \<^verbatim>\<open>None\<close>), the exception is \<^verbatim>\<open>AttributeError\<close>, the scheduler logs it as unknown and its
  loop ends with it, and so does \<^verbatim>\<open>run\<close> after the log line of its \<^verbatim>\<open>finally\<close> clause.
  Here \<open>w0\<close> is the world at the start of the cycle and \<open>w\<close> the world in which the cycle
  calls the drain.
\<close>

theorem second_page_raises:
  assumes "w = snd (time_time w0)"
    and "get_next_events cf (cursor w) w = (Inr batch, w1)" and "batch \<noteq> JNull"
    and "next_page batch = Inr np" and "np \<noteq> JNull"
  shows "(\<exists>e. fst (forward_next_batches cf (True # flags) w) = Inl e) \<and>
    cache (snd (snd (forward_next_batches cf (True # flags) w))) = cache w \<and>
    (\<forall>e w2. get_next_events cf (cursor w) w1 = (Inl e, w2) \<longrightarrow>
       forward_next_batches cf (True # flags) w = (Inl e, flags, w2)) \<and>
    (\<forall>again w2. get_next_events cf (cursor w) w1 = (Inr again, w2) \<longrightarrow>
       forward_next_batches cf (True # flags) w = (Inl AttributeError, flags, w2) \<and>
       run_loop cf (True # True # flags) w0 =
         (Inl AttributeError, flags,
          snd (emit (LogException AttributeError ''An unknown exception occurred'') w2)) \<and>
       (\<forall>v. w0 = snd (emit (Log TriggerStarted Info) v) \<longrightarrow>
          run cf (True # True # flags) v =
            (Inl AttributeError, flags,
             snd (emit (Log TriggerStopped Info)
               (snd (emit (LogException AttributeError ''An unknown exception occurred'')
                  w2))))))"
proof -
  let ?l = "\<lparr>has_more_messages = True, cursor_var = cursor w, messages = []\<rparr>"
  have body: "loop_body cf ?l w =
    (case get_next_events cf (cursor w) w1 of
       (Inl e, w2) \<Rightarrow> (Inl e, w2)
     | (Inr again, w2) \<Rightarrow> (Inl AttributeError, w2))"
    using loop_body_next_page [of cf ?l w batch w1 np] assms by simp
  obtain r2 w2 where g2: "get_next_events cf (cursor w) w1 = (r2, w2)"
    by (cases "get_next_events cf (cursor w) w1")
  have c2: "cache w2 = cache w"
    using get_next_events_cache [of cf "cursor w" w1] get_next_events_cache [of cf "cursor w" w]
      g2 assms(2) by simp
  have 1: "\<exists>e. fst (forward_next_batches cf (True # flags) w) = Inl e"
    using body g2 by (cases r2) (simp_all add: forward_pass)
  have 2: "cache (snd (snd (forward_next_batches cf (True # flags) w))) = cache w"
    using body g2 c2 by (cases r2) (simp_all add: forward_pass)
  have 3: "forward_next_batches cf (True # flags) w = (Inl AttributeError, flags, w2')"
    if "get_next_events cf (cursor w) w1 = (Inr again, w2')" for again w2'
    using body that by (simp add: forward_pass)
  have 4: "run_loop cf (True # True # flags) w0 =
         (Inl AttributeError, flags,
          snd (emit (LogException AttributeError ''An unknown exception occurred'') w2'))"
    if "get_next_events cf (cursor w) w1 = (Inr again, w2')" for again w2'
  proof -
    have "forward_next_batches cf (True # flags) (snd (time_time w0)) =
        (Inl AttributeError, flags, w2')"
      using 3 [OF that] assms(1) by simp
    then have "cycle cf (True # flags) w0 =
        (Inl AttributeError, flags,
         snd (emit (LogException AttributeError ''An unknown exception occurred'') w2'))"
      by (rule cycle_raise) (simp add: is_http_error_def)
    then show ?thesis
      by (simp add: run_loop_pass)
  qed
  have 5: "run cf (True # True # flags) v =
            (Inl AttributeError, flags,
             snd (emit (Log TriggerStopped Info)
               (snd (emit (LogException AttributeError ''An unknown exception occurred'')
                  w2'))))"
    if "get_next_events cf (cursor w) w1 = (Inr again, w2')"
      "w0 = snd (emit (Log TriggerStarted Info) v)" for again w2' v
    using 4 [OF that(1)] that(2) by (simp add: run_def)
  have 6: "forward_next_batches cf (True # flags) w = (Inl e, flags, w2')"
    if "get_next_events cf (cursor w) w1 = (Inl e, w2')" for e w2'
    using body that by (simp add: forward_pass)
  from 1 2 3 4 5 6 show ?thesis by blast
qed

theorem second_page_raises_witness:
  "next_page (page [early] (JString ''https://next'')) = Inr (JString ''https://next'') \<and>
   fst (run (sample_configuration 10) [True, True] two_pages_world) = Inl AttributeError \<and>
   trace (snd (snd (run (sample_configuration 10) [True, True] two_pages_world))) =
     [Log TriggerStarted Info,
      ListAlerts \<lparr>limit_param = 1000, cursor_param = None, startTime_param = Some (- 295)\<rparr>,
      ListAlerts \<lparr>limit_param = 1000, cursor_param = None, startTime_param = Some (- 294)\<rparr>,
      LogException AttributeError ''An unknown exception occurred'',
      Log TriggerStopped Info]"
proof -
  let ?cf = "sample_configuration 10"
  let ?w = "first_drain_world two_pages_world"
  let ?batch = "page [early] (JString ''https://next'')"
  let ?w1 = "snd (get_next_events ?cf (cursor ?w) ?w)"
  let ?w2 = "snd (get_next_events ?cf (cursor ?w) ?w1)"
  have py: "py_int 5 = 5" "py_int 6 = 6" by (simp_all add: py_int_def)
  have w: "?w = snd (time_time (snd (emit (Log TriggerStarted Info) two_pages_world)))"
    by (simp add: first_drain_world_def)
  have g1: "get_next_events ?cf (cursor ?w) ?w = (Inr ?batch, ?w1)"
    by (rule fst_sndI)
      (simp add: cursor_def get_next_events_def request_parameters_def first_drain_world_def
        two_pages_world_def sample_world_def answer_def io_defs Let_def)
  have g2: "get_next_events ?cf (cursor ?w) ?w1 = (Inr (page [late] JNull), ?w2)"
    by (rule fst_sndI)
      (simp add: cursor_def get_next_events_def request_parameters_def first_drain_world_def
        two_pages_world_def sample_world_def answer_def io_defs Let_def)
  have t: "trace ?w2 = [Log TriggerStarted Info,
      ListAlerts \<lparr>limit_param = 1000, cursor_param = None, startTime_param = Some (- 295)\<rparr>,
      ListAlerts \<lparr>limit_param = 1000, cursor_param = None, startTime_param = Some (- 294)\<rparr>]"
    by (simp add: cursor_def get_next_events_def request_parameters_def first_drain_world_def
        two_pages_world_def sample_world_def answer_def io_defs Let_def py
        pagination_limit_def sample_configuration_def)
  from second_page_raises [OF w g1 page_parts(1) page_parts(2), of "[]"] g2
  have "run ?cf [True, True] two_pages_world =
      (Inl AttributeError, [],
       snd (emit (Log TriggerStopped Info)
         (snd (emit (LogException AttributeError ''An unknown exception occurred'') ?w2))))"
    by blast
  with t page_parts(2) show ?thesis
    by (simp add: emit_def)
qed

text \<open>
  C3 as stated fails: when the second call of \<^verbatim>\<open>get_next_events\<close> raises a transport
  error, no attribute is read; the drain raises that error, the scheduler logs it, sleeps
  and goes on.
\<close>

theorem duplicate_fetch_may_raise_transport_error:
  "next_page (page [early] (JString ''https://next'')) = Inr (JString ''https://next'') \<and>
   fst (run (sample_configuration 10) [True, True] second_fetch_unreachable_world) = Inr () \<and>
   trace (snd (snd (run (sample_configuration 10) [True, True]
       second_fetch_unreachable_world))) =
     [Log TriggerStarted Info,
      ListAlerts \<lparr>limit_param = 1000, cursor_param = Some (JString ''abc''),
                  startTime_param = None\<rparr>,
      ListAlerts \<lparr>limit_param = 1000, cursor_param = Some (JString ''abc''),
                  startTime_param = None\<rparr>,
      LogException HTTPError ''Failed to get next batch of events'',
      ForwardEventsDuration ''intake'' 16,
      Sleep 44,
      Log TriggerStopped Info]"
proof -
  let ?cf = "sample_configuration 10"
  let ?v = "snd (emit (Log TriggerStarted Info) second_fetch_unreachable_world)"
  define w' where "w' = snd (snd (forward_next_batches ?cf [True] (snd (time_time ?v))))"
  have ev: "fst (forward_next_batches ?cf [True] (snd (time_time ?v))) = Inl HTTPError \<and>
      fst (snd (forward_next_batches ?cf [True] (snd (time_time ?v)))) = [] \<and>
      trace w' = [Log TriggerStarted Info,
        ListAlerts \<lparr>limit_param = 1000, cursor_param = Some (JString ''abc''),
                    startTime_param = None\<rparr>,
        ListAlerts \<lparr>limit_param = 1000, cursor_param = Some (JString ''abc''),
                    startTime_param = None\<rparr>] \<and>
      clock w' (clock_reads w') = 16"
    unfolding w'_def
    by (simp add: forward_pass loop_body_def Let_def get_next_events_eq
        request_parameters_cursor cursor_def second_fetch_unreachable_world_def
        sample_world_def sample_configuration_def answer_def page_parts pagination_limit_def
        io_defs)
  have f: "forward_next_batches ?cf [True] (snd (time_time ?v)) = (Inl HTTPError, [], w')"
    unfolding w'_def using ev by (intro triple_eqI) simp_all
  have h: "is_http_error HTTPError" by (simp add: is_http_error_def)
  have c0: "clock ?v (clock_reads ?v) = 0"
    by (simp add: second_fetch_unreachable_world_def sample_world_def emit_def)
  have k: "frequency ?cf = 60" "intake_key ?cf = ''intake''"
    by (simp_all add: sample_configuration_def)
  have "cycle ?cf [True] ?v =
      (Inr (), [], snd (sleep_step ?cf (clock ?v (clock_reads ?v))
         (snd (emit (LogException HTTPError ''Failed to get next batch of events'') w'))))"
    by (rule cycle_recover [OF f h])
  then have "run ?cf [True, True] second_fetch_unreachable_world =
      (Inr (), [], snd (emit (Log TriggerStopped Info)
         (snd (sleep_step ?cf (clock ?v (clock_reads ?v))
           (snd (emit (LogException HTTPError ''Failed to get next batch of events'') w'))))))"
    by (simp add: run_def run_loop_pass run_loop_stop)
  with ev c0 k py_int_samples page_parts(2) show ?thesis
    by (simp add: sleep_step_eq emit_def)
qed

text \<open>
  C4. When the fetch of page 2 of 3 fails, the cursor is not advanced beyond the watermark of
  page 1 and exactly the records of page 1 are forwarded. The code does otherwise: page 1
  carries a next-page marker, so line 146 fetches again, gets \<^verbatim>\<open>None\<close> from the failed
  request and raises \<^verbatim>\<open>AttributeError\<close> on its attribute \<^verbatim>\<open>data\<close>, before the records of
  page 1 are put in the batch. Nothing is forwarded and nothing is written.
\<close>

theorem page_one_lost_when_page_two_fails:
  "fst (forward_next_batches (sample_configuration 10) [True] failing_second_fetch_world)
     = Inl AttributeError \<and>
   trace (snd (snd (forward_next_batches (sample_configuration 10) [True]
       failing_second_fetch_world))) =
     [ListAlerts \<lparr>limit_param = 1000, cursor_param = Some (JString ''abc''),
                  startTime_param = None\<rparr>,
      ListAlerts \<lparr>limit_param = 1000, cursor_param = Some (JString ''abc''),
                  startTime_param = None\<rparr>,
      Log (RequestFailed 500 ''Internal Server Error'') Error] \<and>
   cache (snd (snd (forward_next_batches (sample_configuration 10) [True]
       failing_second_fetch_world))) = cache failing_second_fetch_world"
  by (simp add: forward_pass loop_body_def get_next_events_def request_parameters_def
      failing_second_fetch_world_def sample_world_def sample_configuration_def answer_def
      failure_def page_def next_page_def exn_bind_def cursor_def pagination_limit_def
      io_defs Let_def)

text \<open>
  C5. The persisted cursor after a cycle is greater than or equal to the cursor loaded before
  it. More is true: whatever the vendor answers, and whether the drain returns or raises,
  the cursor read back after the drain, and after the whole pass of the scheduler, is the
  cursor that was there before; for string cursors this gives the order stated.
\<close>

theorem cursor_never_regresses:
  "cursor (snd (snd (forward_next_batches cf flags w))) = cursor w \<and>
   cursor (snd (snd (cycle cf flags w))) = cursor w \<and>
   (\<forall>s t. cursor w = JString s \<and> cursor (snd (snd (cycle cf flags w))) = JString t
      \<longrightarrow> s \<le> t)"
  using forward_cursor [of cf flags w] cycle_cursor [of cf flags w] by auto

theorem cursor_never_regresses_witness:
  "cursor (sample_world (JString ''abc'') [0, 16] [answer (page [early, late] JNull)])
     = JString ''abc'' \<and>
   cursor (snd (snd (cycle (sample_configuration 10) [True]
     (sample_world (JString ''abc'') [0, 16] [answer (page [early, late] JNull)]))))
     = JString ''abc'' \<and>
   ''abc'' \<le> ''abc''"
  using cursor_never_regresses [of "sample_configuration 10" "[True]"
      "sample_world (JString ''abc'') [0, 16] [answer (page [early, late] JNull)]"]
  by (simp add: cursor_def sample_world_def)

text \<open>
  C6, amended. In a cycle whose drain returns or raises a transport error, let \<open>d\<close> be the
  time elapsed between the two clock readings of the cycle, truncated to whole seconds as
  line 78 does. The scheduler records \<open>d\<close>, calls sleep once with \<open>frequency - d\<close> when
  \<open>d < frequency\<close>, does not call it otherwise, and goes on with the loop.
\<close>

theorem sleep_budget:
  assumes "forward_next_batches cf flags (snd (time_time w)) = (r, flags', w')"
    and "\<forall>e. r = Inl e \<longrightarrow> is_http_error e"
  shows "let d = py_int (clock w' (clock_reads w') - clock w (clock_reads w));
      logged = (case r of
                  Inl e \<Rightarrow> [LogException e ''Failed to get next batch of events'']
                | Inr u \<Rightarrow> []);
      w3 = w'\<lparr>clock_reads := Suc (clock_reads w'),
              trace := trace w' @ logged @ ForwardEventsDuration (intake_key cf) d #
                (if d < frequency cf then [Sleep (frequency cf - d)] else [])\<rparr>
    in cycle cf flags w = (Inr (), flags', w3) \<and>
       run_loop cf (True # flags) w = run_loop cf flags' w3"
proof (cases r)
  case (Inl e)
  with assms have h: "is_http_error e" by simp
  from cycle_recover [OF assms(1) [unfolded Inl] h] Inl show ?thesis
    by (simp add: Let_def run_loop_pass sleep_step_eq emit_def cong: if_cong)
next
  case (Inr u)
  from cycle_normal [OF assms(1) [unfolded Inr]] Inr show ?thesis
    by (simp add: Let_def run_loop_pass sleep_step_eq cong: if_cong)
qed

theorem sleep_budget_witness:
  "cycle (sample_configuration 10) [True] slow_cycle_world =
     (Inr (), [],
      slow_cycle_world\<lparr>clock_reads := 2, api_calls := 1,
        trace := [ListAlerts \<lparr>limit_param = 1000, cursor_param = Some (JString ''abc''),
                              startTime_param = None\<rparr>,
                  CursorWritten (JString ''abc''), Log NoMessages Info,
                  ForwardEventsDuration ''intake'' 16, Sleep 44]\<rparr>)"
  using sleep_budget [OF slow_cycle_forward] py_int_samples
  by (simp add: Let_def slow_cycle_world_def sample_world_def sample_configuration_def)

text \<open>
  C6 as stated fails: a cycle that lasts 16.5 seconds with a frequency of 60 sleeps 44
  seconds, not 43.5; and a cycle whose drain raises an unexpected exception does not sleep.
\<close>

theorem sleep_is_not_the_exact_remainder:
  "clock slow_cycle_world 1 - clock slow_cycle_world 0 = 33 / 2 \<and>
   filter is_sleep (trace (snd (snd (cycle (sample_configuration 10) [True]
     slow_cycle_world)))) = [Sleep 44] \<and>
   max 0 (of_int (frequency (sample_configuration 10)) - 33 / 2) = (87 / 2 :: rat) \<and>
   fst (run (sample_configuration 10) [True, True] two_pages_world) = Inl AttributeError \<and>
   filter is_sleep (trace (snd (snd (run (sample_configuration 10) [True, True]
     two_pages_world)))) = []"
proof -
  let ?cf = "sample_configuration 10"
  have 1: "clock slow_cycle_world 1 - clock slow_cycle_world 0 = 33 / 2"
    by (simp add: slow_cycle_world_def sample_world_def)
  have 2: "filter is_sleep (trace (snd (snd (cycle ?cf [True] slow_cycle_world)))) = [Sleep 44]"
    by (simp add: slow_cycle_result)
  have 3: "max 0 (of_int (frequency ?cf) - 33 / 2) = (87 / 2 :: rat)"
    by (simp add: sample_configuration_def)
  define w' where
    "w' = snd (snd (forward_next_batches ?cf [True] (first_drain_world two_pages_world)))"
  have f: "forward_next_batches ?cf [True] (first_drain_world two_pages_world) =
      (Inl AttributeError, [], w')"
    unfolding w'_def using two_pages_forward by (intro triple_eqI) simp_all
  have t: "filter is_sleep (trace w') = []"
    unfolding w'_def using two_pages_forward by simp
  have h: "\<not> is_http_error AttributeError" by (simp add: is_http_error_def)
  have "cycle ?cf [True] (snd (emit (Log TriggerStarted Info) two_pages_world)) =
      (Inl AttributeError, [],
       snd (emit (LogException AttributeError ''An unknown exception occurred'') w'))"
    by (rule cycle_raise [OF f [unfolded first_drain_world_def] h])
  then have r: "run ?cf [True, True] two_pages_world =
      (Inl AttributeError, [],
       snd (emit (Log TriggerStopped Info)
         (snd (emit (LogException AttributeError ''An unknown exception occurred'') w'))))"
    by (simp add: run_def run_loop_pass)
  have 4: "fst (run ?cf [True, True] two_pages_world) = Inl AttributeError"
    by (simp add: r)
  have 5: "filter is_sleep (trace (snd (snd (run ?cf [True, True] two_pages_world)))) = []"
    using t by (simp add: r emit_def)
  from 1 2 3 4 5 show ?thesis by blast
qed

text \<open>
  C7. An exception raised by the drain of a cycle is either a transport error
  (\<^verbatim>\<open>requests\<close> or \<^verbatim>\<open>urllib3\<close> \<^verbatim>\<open>HTTPError\<close>), which is logged, after which the scheduler
  goes through its sleep step and on to the next test of its loop; or any other exception,
  which is logged and raised again, so that the loop, and \<^verbatim>\<open>run\<close>, end with it. Here \<open>w\<close>
  is the world at the start of the cycle.
\<close>

theorem exceptions_of_a_cycle:
  assumes "forward_next_batches cf flags (snd (time_time w)) = (Inl e, flags', w')"
  shows "(is_http_error e \<longrightarrow>
      (let d = py_int (clock w' (clock_reads w') - clock w (clock_reads w));
           w3 = w'\<lparr>clock_reads := Suc (clock_reads w'),
                   trace := trace w' @
                     LogException e ''Failed to get next batch of events'' #
                     ForwardEventsDuration (intake_key cf) d #
                     (if d < frequency cf then [Sleep (frequency cf - d)] else [])\<rparr>
       in cycle cf flags w = (Inr (), flags', w3) \<and>
          run_loop cf (True # flags) w = run_loop cf flags' w3)) \<and>
    (\<not> is_http_error e \<longrightarrow>
      (let w3 = w'\<lparr>trace := trace w' @
                     [LogException e ''An unknown exception occurred'']\<rparr>
       in cycle cf flags w = (Inl e, flags', w3) \<and>
          run_loop cf (True # flags) w = (Inl e, flags', w3) \<and>
          (\<forall>v. w = snd (emit (Log TriggerStarted Info) v) \<longrightarrow>
             run cf (True # flags) v =
               (Inl e, flags', w3\<lparr>trace := trace w3 @ [Log TriggerStopped Info]\<rparr>))))"
proof (cases "is_http_error e")
  case True
  from cycle_recover [OF assms True] True show ?thesis
    by (simp add: Let_def run_loop_pass sleep_step_eq emit_def cong: if_cong)
next
  case False
  from cycle_raise [OF assms False] False show ?thesis
    by (auto simp: Let_def run_def run_loop_pass emit_def)
qed

theorem exceptions_of_a_cycle_witness:
  "is_http_error HTTPError \<and> \<not> is_http_error AttributeError \<and>
   fst (run (sample_configuration 10) [True, True] unreachable_vendor_world) = Inr () \<and>
   trace (snd (snd (run (sample_configuration 10) [True, True] unreachable_vendor_world))) =
     [Log TriggerStarted Info,
      ListAlerts \<lparr>limit_param = 1000, cursor_param = Some (JString ''abc''),
                  startTime_param = None\<rparr>,
      LogException HTTPError ''Failed to get next batch of events'',
      ForwardEventsDuration ''intake'' 16,
      Sleep 44,
      Log TriggerStopped Info]"
proof -
  let ?cf = "sample_configuration 10"
  let ?v = "snd (emit (Log TriggerStarted Info) unreachable_vendor_world)"
  define w' where "w' = snd (snd (forward_next_batches ?cf [True] (snd (time_time ?v))))"
  have f: "forward_next_batches ?cf [True] (snd (time_time ?v)) = (Inl HTTPError, [], w')"
    unfolding w'_def
    by (rule triple_eqI)
      (simp_all add: forward_pass loop_body_def get_next_events_def request_parameters_def
        unreachable_vendor_world_def sample_world_def cursor_def io_defs Let_def)
  have t: "trace w' = [Log TriggerStarted Info,
      ListAlerts \<lparr>limit_param = 1000, cursor_param = Some (JString ''abc''),
                  startTime_param = None\<rparr>]"
    unfolding w'_def
    by (simp add: forward_pass loop_body_def get_next_events_def request_parameters_def
        unreachable_vendor_world_def sample_world_def cursor_def
        sample_configuration_def pagination_limit_def io_defs Let_def)
  have c: "clock w' (clock_reads w') = 16"
    unfolding w'_def
    by (simp add: forward_pass loop_body_def get_next_events_def request_parameters_def
        unreachable_vendor_world_def sample_world_def cursor_def io_defs Let_def)
  have c0: "clock ?v (clock_reads ?v) = 0"
    by (simp add: unreachable_vendor_world_def sample_world_def emit_def)
  have h: "is_http_error HTTPError" "\<not> is_http_error AttributeError"
    by (simp_all add: is_http_error_def)
  have k: "frequency ?cf = 60" "intake_key ?cf = ''intake''"
    by (simp_all add: sample_configuration_def)
  from exceptions_of_a_cycle [OF f] h(1)
  have "run_loop ?cf [True, True] ?v =
      run_loop ?cf [] (w'\<lparr>clock_reads := Suc (clock_reads w'),
         trace := trace w' @
           LogException HTTPError ''Failed to get next batch of events'' #
           ForwardEventsDuration (intake_key ?cf) (py_int (clock w' (clock_reads w') -
              clock ?v (clock_reads ?v))) #
           (if py_int (clock w' (clock_reads w') - clock ?v (clock_reads ?v)) < frequency ?cf
            then [Sleep (frequency ?cf -
                   py_int (clock w' (clock_reads w') - clock ?v (clock_reads ?v)))]
            else [])\<rparr>)"
    by (simp add: Let_def)
  with h t c c0 k py_int_samples show ?thesis
    by (simp add: run_def run_loop_stop emit_def)
qed

text \<open>
  C8, amended. A cycle that starts with no persisted cursor (the cursor reads \<^verbatim>\<open>None\<close>) and
  with the running flag set builds its request without a cursor parameter and with the
  start time \<^verbatim>\<open>int(time.time()) - 300\<close>; that request is the first effect of the cycle.
  Building it raises nothing, and the cycle returns normally when the vendor answers with
  an error status or with a last page whose records are well formed.
\<close>

theorem missing_cursor_fallback:
  assumes "cursor w = JNull"
  shows "let ps = \<lparr>limit_param = pagination_limit cf, cursor_param = None,
                    startTime_param = Some (py_int (clock w (clock_reads w)) - 300)\<rparr>
    in request_parameters cf (cursor w) w = (Inr ps, w\<lparr>clock_reads := Suc (clock_reads w)\<rparr>) \<and>
       (\<exists>rest. trace (snd (snd (forward_next_batches cf (True # flags) w))) =
          trace w @ ListAlerts ps # rest) \<and>
       (\<forall>r. api w (api_calls w) ps = Returns r \<and> \<not> ok r \<longrightarrow>
          fst (forward_next_batches cf (True # flags) w) = Inr ()) \<and>
       (\<forall>r batch its seen.
          api w (api_calls w) ps = Returns r \<and> ok r \<and> json_result r = Inr batch \<and>
          batch \<noteq> JNull \<and> next_page batch = Inr JNull \<and>
          dict_get batch ''data'' (JArray []) = Inr (JArray its) \<and>
          (its \<noteq> [] \<longrightarrow>
             get_most_recent_timestamp_from_items (strptime_timestamp w) (JArray its) =
               Inr seen) \<longrightarrow>
          fst (forward_next_batches cf (True # flags) w) = Inr ())"
proof -
  let ?ps = "\<lparr>limit_param = pagination_limit cf, cursor_param = None,
               startTime_param = Some (py_int (clock w (clock_reads w)) - 300)\<rparr>"
  let ?v = "w\<lparr>clock_reads := Suc (clock_reads w)\<rparr>"
  let ?l = "\<lparr>has_more_messages = True, cursor_var = cursor w, messages = []\<rparr>"
  have rp: "request_parameters cf (cursor w) w = (Inr ?ps, ?v)"
    using assms by (simp add: request_parameters_fallback)
  have g: "\<exists>es. trace (snd (get_next_events cf (cursor w) w)) = trace w @ ListAlerts ?ps # es"
    by (simp add: get_next_events_eq rp split: api_result.split)
  have tr: "\<exists>rest. trace (snd (snd (forward_next_batches cf (True # flags) w))) =
      trace w @ ListAlerts ?ps # rest"
    using g forward_trace_after_fetch [of cf flags w] by auto
  have bad: "fst (forward_next_batches cf (True # flags) w) = Inr ()"
    if "api w (api_calls w) ?ps = Returns r" "\<not> ok r" for r
    using that
    by (simp add: forward_pass loop_body_def Let_def get_next_events_eq rp io_defs after_loop_eq)
  have good: "fst (forward_next_batches cf (True # flags) w) = Inr ()"
    if "api w (api_calls w) ?ps = Returns r" "ok r" "json_result r = Inr batch"
      "batch \<noteq> JNull" "next_page batch = Inr JNull"
      "dict_get batch ''data'' (JArray []) = Inr (JArray its)"
      "its \<noteq> [] \<longrightarrow>
         get_most_recent_timestamp_from_items (strptime_timestamp w) (JArray its) = Inr seen"
    for r batch its seen
  proof (cases "its = []")
    case True
    with that show ?thesis
      by (simp add: forward_pass loop_body_def Let_def get_next_events_eq rp io_defs
          after_loop_eq pagination_limit_def)
  next
    case False
    with that(7) have "get_most_recent_timestamp_from_items (strptime_timestamp w)
        (JArray its) = Inr seen" by simp
    with that(1-6) False show ?thesis
      by (simp add: forward_pass loop_body_def Let_def get_next_events_eq rp io_defs
          after_loop_eq)
  qed
  from rp tr bad good show ?thesis
    unfolding Let_def by blast
qed

theorem missing_cursor_fallback_witness:
  "cursor first_run_world = JNull \<and>
   fst (request_parameters (sample_configuration 10) (cursor first_run_world) first_run_world) =
     Inr \<lparr>limit_param = 1000, cursor_param = None, startTime_param = Some 700\<rparr> \<and>
   fst (forward_next_batches (sample_configuration 10) [True] first_run_world) = Inr ()"
proof -
  let ?cf = "sample_configuration 10"
  let ?r = "\<lparr>ok = True, status_code = 200, reason = ''OK'', json_result = Inr (page [] JNull)\<rparr>"
  have c: "cursor first_run_world = JNull"
    by (simp add: first_run_world_def cursor_def)
  have py: "py_int 1000 = 1000" by (simp add: py_int_def)
  have k: "clock first_run_world (clock_reads first_run_world) = 1000"
    by (simp add: first_run_world_def sample_world_def)
  have l: "pagination_limit ?cf = 1000"
    by (simp add: pagination_limit_def sample_configuration_def)
  have a: "api first_run_world (api_calls first_run_world) ps = Returns ?r" for ps
    by (simp add: first_run_world_def sample_world_def answer_def)
  from missing_cursor_fallback [OF c, of ?cf "[]"] a page_parts [of "[]" JNull] c
  show ?thesis
    by (simp add: Let_def k l py)
qed

text \<open>
  C8 as stated fails: a cycle that starts with no persisted cursor fails when the request
  raises a transport error, and when the page has a next-page marker.
\<close>

theorem no_cursor_cycle_may_fail:
  "cursor no_cursor_unreachable_world = JNull \<and>
   fst (forward_next_batches (sample_configuration 10) [True] no_cursor_unreachable_world) =
     Inl HTTPError \<and>
   cursor (first_drain_world two_pages_world) = JNull \<and>
   fst (forward_next_batches (sample_configuration 10) [True]
          (first_drain_world two_pages_world)) = Inl AttributeError"
proof -
  have 1: "cursor no_cursor_unreachable_world = JNull"
    by (simp add: no_cursor_unreachable_world_def cursor_def)
  have 2: "fst (forward_next_batches (sample_configuration 10) [True]
      no_cursor_unreachable_world) = Inl HTTPError"
    by (simp add: forward_pass loop_body_def Let_def get_next_events_eq
        request_parameters_fallback cursor_def no_cursor_unreachable_world_def
        sample_world_def io_defs)
  have 3: "cursor (first_drain_world two_pages_world) = JNull"
    by (simp add: first_drain_world_def two_pages_world_def sample_world_def cursor_def io_defs)
  from 1 2 3 two_pages_forward show ?thesis by simp
qed

text \<open>
  C9, amended. For a non-empty page whose records all carry a string \<^verbatim>\<open>startTime\<close>, the
  timestamp of the lag metric is the parsed maximum of \<^verbatim>\<open>startTime\<close> over all the
  records, whatever their order (any reordering of the same records gives the same
  result); when the page has no next-page marker and that maximum parses, the pass through
  the loop puts the lag computed from it in the metric and leaves the working cursor as it
  was: such a page gives no candidate cursor.
\<close>

theorem lag_timestamp_is_maximum:
  assumes "its \<noteq> []" and "\<forall>it\<in>set its. \<exists>s. subscript it ''startTime'' = Inr (JString s)"
  shows "get_most_recent_timestamp_from_items strp (JArray its) =
      (case strp (Max (set (start_times its))) of
         None \<Rightarrow> Inl ValueError
       | Some t \<Rightarrow> Inr t) \<and>
    (\<forall>its'. set its' = set its \<longrightarrow>
       get_most_recent_timestamp_from_items strp (JArray its') =
       get_most_recent_timestamp_from_items strp (JArray its)) \<and>
    (\<forall>cf l w batch w1 t.
       get_next_events cf (cursor_var l) w = (Inr batch, w1) \<and> batch \<noteq> JNull \<and>
       next_page batch = Inr JNull \<and>
       dict_get batch ''data'' (JArray []) = Inr (JArray its) \<and>
       strptime_timestamp w1 (Max (set (start_times its))) = Some t \<longrightarrow>
       (\<exists>l' w2 rest.
          loop_body cf l w = (Inr (False, l'), w2) \<and>
          cursor_var l' = cursor_var l \<and>
          trace w2 = trace w1 @
            EventsLag (intake_key cf) (py_int (clock w1 (clock_reads w1) - t)) #
            IncomingEvents (intake_key cf) (length its) # rest))"
proof -
  have 1: "get_most_recent_timestamp_from_items strp (JArray its) =
      (case strp (Max (set (start_times its))) of
         None \<Rightarrow> Inl ValueError
       | Some t \<Rightarrow> Inr t)" for strp
    by (rule most_recent_is_maximum [OF assms])
  have 2: "get_most_recent_timestamp_from_items strp (JArray its') =
       get_most_recent_timestamp_from_items strp (JArray its)" if "set its' = set its" for its'
  proof -
    have "its' \<noteq> []" using that assms(1) by auto
    moreover have "\<forall>it\<in>set its'. \<exists>s. subscript it ''startTime'' = Inr (JString s)"
      using that assms(2) by simp
    ultimately have "get_most_recent_timestamp_from_items strp (JArray its') =
      (case strp (Max (set (start_times its'))) of
         None \<Rightarrow> Inl ValueError
       | Some t \<Rightarrow> Inr t)"
      by (rule most_recent_is_maximum)
    moreover have "set (start_times its') = set (start_times its)"
      using that by (simp add: set_start_times)
    ultimately show ?thesis using 1 [of strp] by simp
  qed
  have 3: "\<exists>l' w2 rest.
          loop_body cf l w = (Inr (False, l'), w2) \<and>
          cursor_var l' = cursor_var l \<and>
          trace w2 = trace w1 @
            EventsLag (intake_key cf) (py_int (clock w1 (clock_reads w1) - t)) #
            IncomingEvents (intake_key cf) (length its) # rest"
    if g: "get_next_events cf (cursor_var l) w = (Inr batch, w1)" "batch \<noteq> JNull"
      "next_page batch = Inr JNull"
      "dict_get batch ''data'' (JArray []) = Inr (JArray its)"
      and t: "strptime_timestamp w1 (Max (set (start_times its))) = Some t"
    for cf l w batch w1 t
  proof -
    have s: "get_most_recent_timestamp_from_items (strptime_timestamp w1) (JArray its) = Inr t"
      using 1 [of "strptime_timestamp w1"] t by simp
    let ?lag = "[EventsLag (intake_key cf) (py_int (clock w1 (clock_reads w1) - t)),
        IncomingEvents (intake_key cf) (length its)]"
    let ?msgs = "messages l @ map (orjson_dumps w1) its"
    show ?thesis
    proof (cases "pagination_limit cf < int (length (messages l) + length its)")
      case True
      let ?w2 = "w1\<lparr>clock_reads := Suc (clock_reads w1),
          trace := trace w1 @ ?lag @
            [Log (SendingBatch (length ?msgs)) Info,
             OutcomingEvents (intake_key cf) (length ?msgs), PushEvents ?msgs]\<rparr>"
      have "loop_body cf l w =
          (Inr (False, l\<lparr>has_more_messages := False, messages := []\<rparr>), ?w2)"
        using g s assms(1) True by (simp add: loop_body_def Let_def io_defs)
      then show ?thesis by simp
    next
      case False
      let ?w2 = "w1\<lparr>clock_reads := Suc (clock_reads w1), trace := trace w1 @ ?lag\<rparr>"
      have "loop_body cf l w =
          (Inr (False, l\<lparr>has_more_messages := False, messages := ?msgs\<rparr>), ?w2)"
        using g s assms(1) False by (simp add: loop_body_def Let_def io_defs)
      then show ?thesis by simp
    qed
  qed
  from 1 [of strp] 2 3 show ?thesis by blast
qed

theorem lag_timestamp_is_maximum_witness:
  "[late, early] \<noteq> [] \<and>
   Max (set (start_times [late, early])) = ''2024-05-01T10:00:30.500000Z'' \<and>
   get_most_recent_timestamp_from_items sample_strptime (JArray [late, early]) =
     Inr (3429115261 / 2) \<and>
   get_most_recent_timestamp_from_items sample_strptime (JArray [early, late]) =
     get_most_recent_timestamp_from_items sample_strptime (JArray [late, early]) \<and>
   (\<exists>l' w2 rest.
      loop_body (sample_configuration 10)
        \<lparr>has_more_messages = True, cursor_var = JString ''abc'', messages = []\<rparr>
        unsorted_page_world = (Inr (False, l'), w2) \<and>
      cursor_var l' = JString ''abc'' \<and>
      trace w2 =
        ListAlerts \<lparr>limit_param = 1000, cursor_param = Some (JString ''abc''),
                    startTime_param = None\<rparr> #
        EventsLag ''intake'' 69 # IncomingEvents ''intake'' 2 # rest)"
proof -
  let ?cf = "sample_configuration 10"
  let ?l = "\<lparr>has_more_messages = True, cursor_var = JString ''abc'', messages = []\<rparr>"
  let ?w1 = "unsorted_page_world\<lparr>api_calls := 1,
      trace := [ListAlerts \<lparr>limit_param = 1000, cursor_param = Some (JString ''abc''),
                            startTime_param = None\<rparr>]\<rparr>"
  have a: "\<forall>it\<in>set [late, early]. \<exists>s. subscript it ''startTime'' = Inr (JString s)"
    by (simp add: early_def late_def alert_def)
  have m: "Max (set (start_times [late, early])) = ''2024-05-01T10:00:30.500000Z''"
    by (simp add: start_times_def early_def late_def alert_def)
  have s: "set [early, late] = set [late, early]" by auto
  have g: "get_next_events ?cf (cursor_var ?l) unsorted_page_world =
      (Inr (page [late, early] JNull), ?w1)"
    by (simp add: get_next_events_eq request_parameters_cursor unsorted_page_world_def
        sample_world_def sample_configuration_def answer_def pagination_limit_def)
  have t: "strptime_timestamp ?w1 (Max (set (start_times [late, early]))) =
      Some (3429115261 / 2)"
    by (simp add: m unsorted_page_world_def sample_world_def sample_strptime_def)
  have k: "clock ?w1 (clock_reads ?w1) = 1714557700" "intake_key ?cf = ''intake''"
    by (simp_all add: unsorted_page_world_def sample_world_def sample_configuration_def)
  have n: "[late, early] \<noteq> []" by simp
  note inst = lag_timestamp_is_maximum [OF n a, of sample_strptime]
  from inst have 1: "get_most_recent_timestamp_from_items sample_strptime (JArray [late, early]) =
      Inr (3429115261 / 2)"
    by (simp add: m sample_strptime_def)
  from inst s have 2: "get_most_recent_timestamp_from_items sample_strptime
      (JArray [early, late]) =
      get_most_recent_timestamp_from_items sample_strptime (JArray [late, early])"
    by blast
  from inst g page_parts [of "[late, early]" JNull] t
  have "\<exists>l' w2 rest.
      loop_body ?cf ?l unsorted_page_world = (Inr (False, l'), w2) \<and>
      cursor_var l' = cursor_var ?l \<and>
      trace w2 = trace ?w1 @
        EventsLag (intake_key ?cf) (py_int (clock ?w1 (clock_reads ?w1) - 3429115261 / 2)) #
        IncomingEvents (intake_key ?cf) (length [late, early]) # rest"
    by blast
  then have 3: "\<exists>l' w2 rest.
      loop_body ?cf ?l unsorted_page_world = (Inr (False, l'), w2) \<and>
      cursor_var l' = JString ''abc'' \<and>
      trace w2 =
        ListAlerts \<lparr>limit_param = 1000, cursor_param = Some (JString ''abc''),
                    startTime_param = None\<rparr> #
        EventsLag ''intake'' 69 # IncomingEvents ''intake'' 2 # rest"
    using k py_int_samples by (simp add: numeral_2_eq_2)
  from n m 1 2 3 show ?thesis by blast
qed

text \<open>
  C9 as stated fails for the cursor: after a page of two records without next-page marker,
  the working cursor is still the one loaded, not the maximum \<^verbatim>\<open>startTime\<close> of the page.
\<close>

theorem cursor_is_not_the_maximum:
  "fst (loop_body (sample_configuration 10)
     \<lparr>has_more_messages = True, cursor_var = JString ''abc'', messages = []\<rparr>
     one_page_world) =
     Inr (False, \<lparr>has_more_messages = False, cursor_var = JString ''abc'',
                  messages = [''a'', ''b'']\<rparr>) \<and>
   Max (set (start_times [early, late])) = ''2024-05-01T10:00:30.500000Z''"
proof -
  have d: "map sample_dumps [early, late] = [''a'', ''b'']"
    by (simp add: sample_dumps_def early_def late_def alert_def)
  have m: "Max (set (start_times [early, late])) = ''2024-05-01T10:00:30.500000Z''"
    by (simp add: start_times_def early_def late_def alert_def)
  show ?thesis
    using d m most_recent_early_late py_int_samples
    by (simp add: loop_body_def Let_def get_next_events_eq request_parameters_cursor
        one_page_world_def sample_world_def sample_configuration_def answer_def
        page_parts pagination_limit_def io_defs)
qed

text \<open>
  C10. The running flag is checked between pages, and records fetched but not yet sent are
  sent when the loop ends on the flag. The code does otherwise: a first page that announces
  a next one makes line 146 raise before the test of the loop is reached again. With the
  stop signal arriving after that page, the drain raises \<^verbatim>\<open>AttributeError\<close>, the second value
  of the flag is never read, and the record of the first page is not sent. In every drain
  the flag is read exactly once, before the first fetch.
\<close>

theorem stop_after_first_page_loses_it:
  "fst (forward_next_batches (sample_configuration 10) [True, False]
          stopped_after_first_page_world) = Inl AttributeError \<and>
   fst (snd (forward_next_batches (sample_configuration 10) [True, False]
          stopped_after_first_page_world)) = [False] \<and>
   trace (snd (snd (forward_next_batches (sample_configuration 10) [True, False]
          stopped_after_first_page_world))) =
     [ListAlerts \<lparr>limit_param = 1000, cursor_param = Some (JString ''abc''),
                  startTime_param = None\<rparr>,
      ListAlerts \<lparr>limit_param = 1000, cursor_param = Some (JString ''abc''),
                  startTime_param = None\<rparr>] \<and>
   cache (snd (snd (forward_next_batches (sample_configuration 10) [True, False]
          stopped_after_first_page_world))) = cache stopped_after_first_page_world \<and>
   fst (snd (forward_next_batches cf (f # rest) w)) = rest"
  using flag_read_once [of cf f rest w]
  by (simp add: forward_pass loop_body_def Let_def get_next_events_eq
      request_parameters_cursor cursor_def stopped_after_first_page_world_def
      sample_world_def sample_configuration_def answer_def page_parts pagination_limit_def
      io_defs getattr_data_raises)

end
